theory Spec2Isabelle
  imports Complex_Main "HOL-Library.Word"
begin

section \<open>Data model of main.go\<close>

text \<open>
  A Go \<open>float64\<close> is kept as its 64-bit pattern: the program never computes with the
  fields of \<open>Weather\<close>, it only passes them between the JSON decoder and encoder.
  A Go \<open>error\<close> is kept as its message, the only part the program reads
  (\<open>err.Error()\<close>).
\<close>

type_synonym float64 = "64 word"
type_synonym error = string

record Day =
  Datetime :: string
  Temp :: float64
  FeelsLike :: float64
  WindSpeed :: float64
  Visibility :: float64
  UVIndex :: float64
  Sunrise :: string
  Sunset :: string
  Icon :: string
  Day_Description :: string

record Weather =
  Latitude :: float64
  Longitude :: float64
  ResolvedAddress :: string
  Timezone :: string
  Description :: string
  Days :: "Day list"

text \<open>The zero value \<open>Weather{}\<close> returned beside every error of \<open>getWeatherValue\<close>.\<close>

definition Weather_zero :: Weather where
  "Weather_zero = \<lparr>Latitude = 0, Longitude = 0, ResolvedAddress = [], Timezone = [],
     Description = [], Days = []\<rparr>"

subsection \<open>The request, the response writer and the observable effects\<close>

text \<open>
  Of \<open>*http.Request\<close> the program reads \<open>RemoteAddr\<close> and the query parameters.
  \<open>Query_Get\<close> is \<open>r.URL.Query().Get(name)\<close>: the first value of the parameter, the
  empty string when it is absent.
\<close>

record request =
  RemoteAddr :: string
  Query :: "(string \<times> string) list"

definition Query_Get :: "request \<Rightarrow> string \<Rightarrow> string" where
  "Query_Get r name = (case map_of (Query r) name of None \<Rightarrow> [] | Some v \<Rightarrow> v)"

text \<open>
  \<open>http.ResponseWriter\<close>: the headers this program sets itself, the status line once it
  is written, and the body. \<open>Write\<close> before any \<open>WriteHeader\<close> sends status 200, and
  \<open>http.Error\<close> writes the status and the message followed by a newline.
\<close>

record ResponseWriter =
  Header :: "(string \<times> string) list"
  status :: "nat option"
  body :: string

definition w0 :: ResponseWriter where
  "w0 = \<lparr>Header = [], status = None, body = []\<rparr>"

definition StatusOK :: nat where "StatusOK = 200"
definition StatusTooManyRequests :: nat where "StatusTooManyRequests = 429"
definition StatusInternalServerError :: nat where "StatusInternalServerError = 500"

definition newline :: string where
  "newline = [CHR 0x0A]"

definition dquote :: "string \<Rightarrow> string" where
  "dquote s = [CHR 0x22] @ s @ [CHR 0x22]"

definition Header_Set :: "ResponseWriter \<Rightarrow> string \<Rightarrow> string \<Rightarrow> ResponseWriter" where
  "Header_Set w k v = w\<lparr>Header := (k, v) # filter (\<lambda>kv. fst kv \<noteq> k) (Header w)\<rparr>"

definition WriteHeader :: "ResponseWriter \<Rightarrow> nat \<Rightarrow> ResponseWriter" where
  "WriteHeader w code = (case status w of None \<Rightarrow> w\<lparr>status := Some code\<rparr> | Some _ \<Rightarrow> w)"

definition Write :: "ResponseWriter \<Rightarrow> string \<Rightarrow> ResponseWriter" where
  "Write w bs = (let w1 = WriteHeader w StatusOK in w1\<lparr>body := body w1 @ bs\<rparr>)"

definition http_Error :: "ResponseWriter \<Rightarrow> string \<Rightarrow> nat \<Rightarrow> ResponseWriter" where
  "http_Error w msg code = Write (WriteHeader w code) (msg @ newline)"

text \<open>
  What a handler does to the outside world, in order: the calls to the cache store, the
  upstream request, the read of the environment and the lines printed on standard output.
\<close>

datatype event =
    RedisGet string
  | RedisSet string string rat
  | HttpDo string
  | Getenv string
  | Println string

fun is_RedisGet :: "event \<Rightarrow> bool" where
  "is_RedisGet (RedisGet _) = True"
| "is_RedisGet _ = False"

fun is_RedisSet :: "event \<Rightarrow> bool" where
  "is_RedisSet (RedisSet _ _ _) = True"
| "is_RedisSet _ = False"

fun is_HttpDo :: "event \<Rightarrow> bool" where
  "is_HttpDo (HttpDo _) = True"
| "is_HttpDo _ = False"

fun is_Getenv :: "event \<Rightarrow> bool" where
  "is_Getenv (Getenv _) = True"
| "is_Getenv _ = False"

subsection \<open>The libraries and the outside world\<close>

text \<open>
  The Go standard library functions the program calls are parameters of the model:
  \<open>net.SplitHostPort\<close>, the URL check of \<open>http.NewRequestWithContext\<close> (its only way
  to fail here), \<open>json.Unmarshal\<close> into a \<open>Weather\<close> and \<open>json.Marshal\<close> of one.
\<close>

record libs =
  SplitHostPort :: "string \<Rightarrow> error + (string \<times> string)"
  NewRequest :: "string \<Rightarrow> error option"
  Unmarshal :: "string \<Rightarrow> error + Weather"
  Marshal :: "Weather \<Rightarrow> error + string"

text \<open>
  What \<open>client.Do\<close> followed by \<open>io.ReadAll\<close> gives for a URL: a transport error (also
  the 2 second timeout), a body that cannot be read, or a status code with its body.
\<close>

datatype http_result =
    DoFailed error
  | ReadFailed error
  | Reply nat string

text \<open>
  The world at the moment of one request: the clock in seconds, the process environment,
  the upstream service, and whether the Redis \<open>GET\<close> or \<open>SET\<close> of this request fails in
  transport (connection refused, the 3 second timeout).
\<close>

record world =
  now :: rat
  Environ :: "string \<Rightarrow> string"
  Do :: "string \<Rightarrow> http_result"
  GetFault :: "error option"
  SetFault :: "error option"

text \<open>
  The Redis server as this program sees it: each key holds a value and the time at which
  it expires. A key is found while the clock is before that time; a missing key is the
  error \<open>redis.Nil\<close>. A \<open>SET\<close> that fails in transport leaves the store as it was.
\<close>

type_synonym redisDB = "string \<rightharpoonup> (string \<times> rat)"

definition redis_Nil :: error where
  "redis_Nil = ''redis: nil''"

definition getRedisValue :: "world \<Rightarrow> redisDB \<Rightarrow> string \<Rightarrow> (error + string) \<times> event list" where
  "getRedisValue wd db key =
     ((case GetFault wd of
         Some err \<Rightarrow> Inl err
       | None \<Rightarrow>
           (case db key of
              None \<Rightarrow> Inl redis_Nil
            | Some (val, expires) \<Rightarrow> if now wd < expires then Inr val else Inl redis_Nil)),
      [RedisGet key])"

definition setRedisValue ::
  "world \<Rightarrow> redisDB \<Rightarrow> string \<Rightarrow> string \<Rightarrow> rat \<Rightarrow> error option \<times> redisDB \<times> event list" where
  "setRedisValue wd db key val expiration =
     (case SetFault wd of
        Some err \<Rightarrow> (Some err, db, [RedisSet key val expiration])
      | None \<Rightarrow> (None, db(key \<mapsto> (val, now wd + expiration)), [RedisSet key val expiration]))"

section \<open>The upstream fetch\<close>

text \<open>\<open>%d\<close> of a non-negative \<open>int\<close>: its decimal digits.\<close>

fun itoa :: "nat \<Rightarrow> string" where
  "itoa n = (if n < 10 then [char_of (48 + n)] else itoa (n div 10) @ [char_of (48 + n mod 10)])"

declare itoa.simps [simp del]

definition default_country :: string where
  "default_country = ''maltepe''"

definition weather_url :: "string \<Rightarrow> string \<Rightarrow> string" where
  "weather_url country key =
     ''https://weather.visualcrossing.com/VisualCrossingWebServices/rest/services/timeline/''
     @ country @ ''/today?unitGroup=metric&include=days&key='' @ key @ ''&contentType=json''"

definition getWeatherValue ::
  "libs \<Rightarrow> world \<Rightarrow> string \<Rightarrow> string \<Rightarrow> (error + Weather) \<times> event list" where
  "getWeatherValue L wd country0 key =
     (if key = [] then (Inl ''API key cannot be empty'', [])
      else
        let country = (if country0 = [] then default_country else country0);
            url = weather_url country key
        in case NewRequest L url of
             Some err \<Rightarrow> (Inl (''failed to create HTTP request: '' @ err), [])
           | None \<Rightarrow>
               (case Do wd url of
                  DoFailed err \<Rightarrow> (Inl (''failed to make HTTP request: '' @ err), [HttpDo url])
                | ReadFailed err \<Rightarrow> (Inl (''failed to read response body: '' @ err), [HttpDo url])
                | Reply code bs \<Rightarrow>
                    if code \<noteq> StatusOK
                    then (Inl (''status code : '' @ itoa code @ '' , message : '' @ bs), [HttpDo url])
                    else (case Unmarshal L bs of
                            Inl err \<Rightarrow> (Inl err, [HttpDo url])
                          | Inr weather \<Rightarrow> (Inr weather, [HttpDo url]))))"

section \<open>The cache-aside handler\<close>

definition cache_ttl :: rat where
  "cache_ttl = 5 * 60"

definition redisMiddleware ::
  "libs \<Rightarrow> world \<Rightarrow> ResponseWriter \<Rightarrow> request \<Rightarrow> redisDB \<Rightarrow> ResponseWriter \<times> redisDB \<times> event list" where
  "redisMiddleware L wd w r db =
     (let country = Query_Get r ''country''
      in case getRedisValue wd db country of
           (Inr val, ev1) \<Rightarrow> (Write w val, db, ev1 @ [Println ''Yes redis''])
         | (Inl _, ev1) \<Rightarrow>
             (let key = Environ wd ''API_KEY''; ev2 = ev1 @ [Getenv ''API_KEY'']
              in if key = []
                 then (http_Error w ''Api key could not found'' StatusInternalServerError, db, ev2)
                 else
                   (case getWeatherValue L wd country key of
                      (Inl err, ev3) \<Rightarrow>
                        (http_Error w (''getWeatherValue Error : '' @ err) StatusInternalServerError,
                         db, ev2 @ ev3)
                    | (Inr weather, ev3) \<Rightarrow>
                        (case Marshal L weather of
                           Inl _ \<Rightarrow>
                             (http_Error w ''Error marshalling JSON'' StatusInternalServerError,
                              db, ev2 @ ev3)
                         | Inr data \<Rightarrow>
                             (case setRedisValue wd db country data cache_ttl of
                                (Some _, db', ev4) \<Rightarrow>
                                  (http_Error w ''Error setting value in Redis''
                                     StatusInternalServerError,
                                   db', ev2 @ ev3 @ ev4)
                              | (None, db', ev4) \<Rightarrow>
                                  (Write w data, db', ev2 @ ev3 @ ev4 @ [Println ''No redis'']))))))"

section \<open>The per-client rate limiter\<close>

text \<open>
  Modelled from the spec: \<open>rate.Limiter\<close> of \<open>golang.org/x/time/rate\<close> (\<open>NewLimiter\<close>,
  \<open>Allow\<close>), which is not part of this repository. The state is the one of section 3 of
  the specification (rate in tokens per second, burst capacity, current tokens, time of the
  last refill) and \<open>Allow\<close> is the algorithm of section 4.1: add \<open>elapsed * rate\<close> tokens,
  capped at the burst, then consume one token if at least one is there. A new limiter
  starts with a full bucket. Tokens and seconds are exact rationals, and the time of the
  call, which the library reads from the clock, is an argument.
\<close>

record Limiter =
  rate :: rat
  burst :: nat
  tokens :: rat
  lastRefill :: rat

text \<open>
  Modelled from the spec: \<open>rate.NewLimiter\<close>, the limiter "with a fixed configured (rate,
  burst)" of section 4.2. Its bucket is full, as the scenario of section 8 needs.
\<close>

definition NewLimiter :: "rat \<Rightarrow> nat \<Rightarrow> Limiter" where
  "NewLimiter r b = \<lparr>rate = r, burst = b, tokens = of_nat b, lastRefill = 0\<rparr>"

text \<open>
  Modelled from the spec: the refill step of \<open>Allow\<close> in section 4.1, "compute elapsed
  time since last refill, add \<open>elapsed * rate\<close> tokens capped at \<open>burst\<close>". A clock that
  went back counts as no time elapsed.
\<close>

definition refill :: "Limiter \<Rightarrow> rat \<Rightarrow> Limiter" where
  "refill lm t =
     (let elapsed = (if t < lastRefill lm then 0 else t - lastRefill lm)
      in lm\<lparr>tokens := min (of_nat (burst lm)) (tokens lm + elapsed * rate lm),
            lastRefill := t\<rparr>)"

text \<open>
  Modelled from the spec: \<open>limiter.Allow()\<close>, section 4.1: after the refill it "returns
  true and decrements by 1 if at least 1 token available, else false".
\<close>

definition Allow :: "Limiter \<Rightarrow> rat \<Rightarrow> bool \<times> Limiter" where
  "Allow lm t =
     (let l = refill lm t
      in if 1 \<le> tokens l then (True, l\<lparr>tokens := tokens l - 1\<rparr>) else (False, l))"

text \<open>
  \<open>ipLimiterMap\<close> is a \<open>map[string]*rate.Limiter\<close>: it holds pointers. The limiters live
  in a heap, a pointer is an index into it, and \<open>rate.NewLimiter\<close> allocates the next
  index.
\<close>

record registry =
  ipLimiterMap :: "string \<rightharpoonup> nat"
  heap :: "Limiter list"

definition registry_empty :: registry where
  "registry_empty = \<lparr>ipLimiterMap = Map.empty, heap = []\<rparr>"

definition getIP :: "libs \<Rightarrow> request \<Rightarrow> string \<times> event list" where
  "getIP L r =
     (case SplitHostPort L (RemoteAddr r) of
        Inl err \<Rightarrow> ([], [Println (''Error parsing IP : %v '' @ err)])
      | Inr (host, _) \<Rightarrow> (host, []))"

definition too_many_requests_body :: string where
  "too_many_requests_body =
     ''{'' @ dquote ''error'' @ '':'' @ dquote ''To many requests'' @ ''}'' @ newline"

text \<open>Lines 55 to 59: look the limiter up, create and store it on first sight.\<close>

definition lookup_or_create :: "registry \<Rightarrow> string \<Rightarrow> rat \<Rightarrow> nat \<Rightarrow> nat \<times> registry" where
  "lookup_or_create reg ip limit b =
     (case ipLimiterMap reg ip of
        Some a \<Rightarrow> (a, reg)
      | None \<Rightarrow>
          (length (heap reg),
           \<lparr>ipLimiterMap = (ipLimiterMap reg)(ip \<mapsto> length (heap reg)),
            heap = heap reg @ [NewLimiter limit b]\<rparr>))"

type_synonym 's handler = "world \<Rightarrow> ResponseWriter \<Rightarrow> request \<Rightarrow> 's \<Rightarrow> ResponseWriter \<times> 's \<times> event list"

definition rateLimiterMiddleware ::
  "libs \<Rightarrow> 'db handler \<Rightarrow> rat \<Rightarrow> nat \<Rightarrow> (registry \<times> 'db) handler" where
  "rateLimiterMiddleware L next limit b wd w r st =
     (let (reg, db) = st;
          (ip, ev0) = getIP L r;
          (a, reg1) = lookup_or_create reg ip limit b;
          (ok, limiter') = Allow (heap reg1 ! a) (now wd);
          reg2 = reg1\<lparr>heap := (heap reg1)[a := limiter']\<rparr>
      in if \<not> ok
         then (Write (WriteHeader (Header_Set w ''Content-Type'' ''application/json'')
                        StatusTooManyRequests)
                 too_many_requests_body,
               (reg2, db), ev0)
         else (let (w', db', ev1) = next wd w r db in (w', (reg2, db'), ev0 @ ev1)))"

section \<open>The server\<close>

text \<open>The handler of \<open>/weather\<close> as \<open>main\<close> registers it: 2 tokens per second, burst 10.\<close>

definition weatherHandler :: "libs \<Rightarrow> (registry \<times> redisDB) handler" where
  "weatherHandler L = rateLimiterMiddleware L (redisMiddleware L) 2 10"

text \<open>
  The requests of a run, served one after the other, each with the world it meets and a
  fresh response writer. The result is the response and the effects of each request, and
  the state after the last one.
\<close>

fun serve :: "'s handler \<Rightarrow> 's \<Rightarrow> (world \<times> request) list \<Rightarrow> (ResponseWriter \<times> event list) list \<times> 's" where
  "serve h st [] = ([], st)"
| "serve h st ((wd, r) # rest) =
     (case h wd w0 r st of
        (w', st', ev) \<Rightarrow> (case serve h st' rest of (outs, st'') \<Rightarrow> ((w', ev) # outs, st'')))"

section \<open>Predicates used in the statements\<close>

text \<open>The limiter a client identifier points to, if the client has been seen.\<close>

definition limiter_of :: "registry \<Rightarrow> string \<Rightarrow> Limiter option" where
  "limiter_of reg ip = map_option (\<lambda>a. heap reg ! a) (ipLimiterMap reg ip)"

text \<open>
  What holds of every registry the program builds: every stored pointer is allocated, and
  no two client identifiers hold the same pointer.
\<close>

definition registry_ok :: "registry \<Rightarrow> bool" where
  "registry_ok reg \<longleftrightarrow>
     (\<forall>ip a. ipLimiterMap reg ip = Some a \<longrightarrow> a < length (heap reg)) \<and>
     (\<forall>ip ip' a. ipLimiterMap reg ip = Some a \<and> ipLimiterMap reg ip' = Some a \<longrightarrow> ip = ip')"

text \<open>
  Lines 53 to 60 on their own: the decision of the limiter for one request, and the
  registry after it.
\<close>

definition check_limiter :: "libs \<Rightarrow> rat \<Rightarrow> nat \<Rightarrow> world \<Rightarrow> request \<Rightarrow> registry \<Rightarrow> bool \<times> registry" where
  "check_limiter L limit b wd r reg =
     (let (a, reg1) = lookup_or_create reg (fst (getIP L r)) limit b;
          (ok, limiter') = Allow (heap reg1 ! a) (now wd)
      in (ok, reg1\<lparr>heap := (heap reg1)[a := limiter']\<rparr>))"

text \<open>The limiter a request of this client meets: its stored one, or a new one.\<close>

definition start_limiter :: "registry \<Rightarrow> string \<Rightarrow> rat \<Rightarrow> nat \<Rightarrow> Limiter" where
  "start_limiter reg c limit b =
     (case limiter_of reg c of None \<Rightarrow> NewLimiter limit b | Some lm \<Rightarrow> lm)"

text \<open>\<open>Allow\<close> called at each of the given times in turn.\<close>

fun allow_all :: "Limiter \<Rightarrow> rat list \<Rightarrow> bool list \<times> Limiter" where
  "allow_all lm [] = ([], lm)"
| "allow_all lm (t # ts) =
     (case Allow lm t of
        (ok, lm') \<Rightarrow> (case allow_all lm' ts of (oks, lm'') \<Rightarrow> (ok # oks, lm'')))"

text \<open>
  The URL that \<open>getWeatherValue\<close> requests for a lookup key and an API key (lines 126 to
  131).
\<close>

definition fetch_url :: "string \<Rightarrow> string \<Rightarrow> string" where
  "fetch_url country key = weather_url (if country = [] then default_country else country) key"

text \<open>A request is rejected by the rate limiter when its status is 429.\<close>

definition rejected :: "ResponseWriter \<times> event list \<Rightarrow> bool" where
  "rejected out \<longleftrightarrow> status (fst out) = Some StatusTooManyRequests"

text \<open>The requests of a run that come from one client identifier, and their responses.\<close>

definition from_client :: "libs \<Rightarrow> string \<Rightarrow> world \<times> request \<Rightarrow> bool" where
  "from_client L c x \<longleftrightarrow> fst (getIP L (snd x)) = c"

definition responses_to ::
  "libs \<Rightarrow> string \<Rightarrow> (world \<times> request) list \<Rightarrow> (ResponseWriter \<times> event list) list \<Rightarrow>
     (ResponseWriter \<times> event list) list" where
  "responses_to L c tr outs = map snd (filter (\<lambda>p. from_client L c (fst p)) (zip tr outs))"

section \<open>Example inputs\<close>

text \<open>
  An instance of \<open>net.SplitHostPort\<close> for the examples, after the algorithm of the Go
  standard library: the port follows the last colon, a host in brackets may hold colons,
  and anything else with a second colon or a stray bracket is an error.
\<close>

fun IndexByte :: "string \<Rightarrow> char \<Rightarrow> nat option" where
  "IndexByte [] c = None"
| "IndexByte (x # xs) c = (if x = c then Some 0 else map_option Suc (IndexByte xs c))"

definition LastIndexByte :: "string \<Rightarrow> char \<Rightarrow> nat option" where
  "LastIndexByte s c = map_option (\<lambda>i. length s - 1 - i) (IndexByte (rev s) c)"

definition addrErr :: "string \<Rightarrow> string \<Rightarrow> error + (string \<times> string)" where
  "addrErr addr why = Inl (''address '' @ addr @ '': '' @ why)"

definition net_SplitHostPort :: "string \<Rightarrow> error + (string \<times> string)" where
  "net_SplitHostPort hostport =
     (let finish = (\<lambda>host j k i.
            if IndexByte (drop j hostport) (CHR ''['') \<noteq> None
            then addrErr hostport ''unexpected [ in address''
            else if IndexByte (drop k hostport) (CHR '']'') \<noteq> None
            then addrErr hostport ''unexpected ] in address''
            else Inr (host, drop (i + 1) hostport))
      in case LastIndexByte hostport (CHR '':'') of
           None \<Rightarrow> addrErr hostport ''missing port in address''
         | Some i \<Rightarrow>
             if take 1 hostport = ''[''
             then (case IndexByte hostport (CHR '']'') of
                     None \<Rightarrow> addrErr hostport ''missing ] in address''
                   | Some e \<Rightarrow>
                       if e + 1 = length hostport
                       then addrErr hostport ''missing port in address''
                       else if e + 1 = i
                       then finish (take (e - 1) (drop 1 hostport)) 1 (e + 1) i
                       else if take 1 (drop (e + 1) hostport) = '':''
                       then addrErr hostport ''too many colons in address''
                       else addrErr hostport ''missing port in address'')
             else if IndexByte (take i hostport) (CHR '':'') \<noteq> None
             then addrErr hostport ''too many colons in address''
             else finish (take i hostport) 0 0 i)"

text \<open>
  A small stand-in for the JSON codec: it decodes one upstream body, and encodes a
  \<open>Weather\<close> by its resolved address alone.
\<close>

definition ex_body :: string where
  "ex_body = ''{'' @ dquote ''resolvedAddress'' @ '': '' @ dquote ''Maltepe'' @ '', ''
     @ dquote ''queryCost'' @ '': 1}''"

definition ex_weather :: Weather where
  "ex_weather = Weather_zero\<lparr>ResolvedAddress := ''Maltepe''\<rparr>"

definition ex_Unmarshal :: "string \<Rightarrow> error + Weather" where
  "ex_Unmarshal bs = (if bs = ex_body then Inr ex_weather else Inl ''unexpected end of JSON input'')"

definition ex_Marshal :: "Weather \<Rightarrow> error + string" where
  "ex_Marshal wt = Inr (''{'' @ dquote ''resolvedAddress'' @ '':'' @ dquote (ResolvedAddress wt) @ ''}'')"

definition ex_data :: string where
  "ex_data = ''{'' @ dquote ''resolvedAddress'' @ '':'' @ dquote ''Maltepe'' @ ''}''"

definition ex_libs :: libs where
  "ex_libs = \<lparr>SplitHostPort = net_SplitHostPort, NewRequest = (\<lambda>url. None),
     Unmarshal = ex_Unmarshal, Marshal = ex_Marshal\<rparr>"

text \<open>
  A world at time \<open>t\<close> with the API key \<open>k\<close>, no Redis fault, and an upstream that
  answers 200 for \<open>maltepe\<close>, 500 for \<open>ankara\<close> and 404 for every other place.
\<close>

definition ex_Do :: "string \<Rightarrow> http_result" where
  "ex_Do url =
     (if url = weather_url ''maltepe'' ''k'' then Reply 200 ex_body
      else if url = weather_url ''ankara'' ''k'' then Reply 500 ''down''
      else Reply 404 ''not found'')"

definition ex_env :: "string \<Rightarrow> string" where
  "ex_env name = (if name = ''API_KEY'' then ''k'' else [])"

definition ex_world :: "rat \<Rightarrow> world" where
  "ex_world t = \<lparr>now = t, Environ = ex_env, Do = ex_Do, GetFault = None, SetFault = None\<rparr>"

definition ex_request :: "string \<Rightarrow> string \<Rightarrow> request" where
  "ex_request addr country = \<lparr>RemoteAddr = addr, Query = [(''country'', country)]\<rparr>"

text \<open>The cache after a fill for \<open>maltepe\<close> at time 0, and a world whose Redis \<open>SET\<close> fails.\<close>

definition ex_db :: redisDB where
  "ex_db = [''maltepe'' \<mapsto> (ex_data, 300)]"

definition ex_world_set_down :: "rat \<Rightarrow> world" where
  "ex_world_set_down t = (ex_world t)\<lparr>SetFault := Some ''i/o timeout''\<rparr>"

text \<open>
  Eleven requests of one client within a tenth of a second; ten requests from the remote
  address \<open>@\<close> and one from \<open>pipe\<close>, neither of which is a host and a port; and a request
  of a second client.
\<close>

definition ex_burst :: "(world \<times> request) list" where
  "ex_burst =
     map (\<lambda>i. (ex_world (of_nat i / 100), ex_request ''203.0.113.7:5000'' ''maltepe'')) [0..<11]"

definition ex_unsplit :: "(world \<times> request) list" where
  "ex_unsplit =
     replicate 10 (ex_world 0, ex_request ''@'' ''maltepe'') @
     [(ex_world 0, ex_request ''pipe'' ''maltepe'')]"

definition ex_other :: "world \<times> request" where
  "ex_other = (ex_world (1 / 10), ex_request ''198.51.100.2:41000'' ''maltepe'')"

section \<open>The cache-aside handler, path by path\<close>

lemma Write_w0: "Write w0 bs = \<lparr>Header = [], status = Some StatusOK, body = bs\<rparr>"
  by (simp add: Write_def WriteHeader_def w0_def)

lemma http_Error_w0: "http_Error w0 msg code = \<lparr>Header = [], status = Some code, body = msg @ newline\<rparr>"
  by (simp add: http_Error_def Write_def WriteHeader_def w0_def)

lemma getRedisValue_events: "snd (getRedisValue wd db key) = [RedisGet key]"
  by (simp add: getRedisValue_def)

lemma redisMiddleware_hit:
  assumes "fst (getRedisValue wd db (Query_Get r ''country'')) = Inr val"
  shows "redisMiddleware L wd w r db =
           (Write w val, db, [RedisGet (Query_Get r ''country''), Println ''Yes redis''])"
  using assms by (cases "getRedisValue wd db (Query_Get r ''country'')")
    (use getRedisValue_events [of wd db "Query_Get r ''country''"] in \<open>simp add: redisMiddleware_def\<close>)

lemma redisMiddleware_no_key:
  assumes "fst (getRedisValue wd db (Query_Get r ''country'')) = Inl e"
    and "Environ wd ''API_KEY'' = []"
  shows "redisMiddleware L wd w r db =
           (http_Error w ''Api key could not found'' StatusInternalServerError, db,
            [RedisGet (Query_Get r ''country''), Getenv ''API_KEY''])"
  using assms by (cases "getRedisValue wd db (Query_Get r ''country'')")
    (use getRedisValue_events [of wd db "Query_Get r ''country''"] in \<open>simp add: redisMiddleware_def\<close>)

lemma redisMiddleware_fetch_failed:
  assumes "fst (getRedisValue wd db (Query_Get r ''country'')) = Inl e"
    and "Environ wd ''API_KEY'' \<noteq> []"
    and "fst (getWeatherValue L wd (Query_Get r ''country'') (Environ wd ''API_KEY'')) = Inl err"
  shows "redisMiddleware L wd w r db =
           (http_Error w (''getWeatherValue Error : '' @ err) StatusInternalServerError, db,
            [RedisGet (Query_Get r ''country''), Getenv ''API_KEY''] @
            snd (getWeatherValue L wd (Query_Get r ''country'') (Environ wd ''API_KEY'')))"
  using assms by (cases "getRedisValue wd db (Query_Get r ''country'')";
      cases "getWeatherValue L wd (Query_Get r ''country'') (Environ wd ''API_KEY'')")
    (use getRedisValue_events [of wd db "Query_Get r ''country''"] in \<open>simp add: redisMiddleware_def\<close>)

lemma redisMiddleware_marshal_failed:
  assumes "fst (getRedisValue wd db (Query_Get r ''country'')) = Inl e"
    and "Environ wd ''API_KEY'' \<noteq> []"
    and "fst (getWeatherValue L wd (Query_Get r ''country'') (Environ wd ''API_KEY'')) = Inr weather"
    and "Marshal L weather = Inl err"
  shows "redisMiddleware L wd w r db =
           (http_Error w ''Error marshalling JSON'' StatusInternalServerError, db,
            [RedisGet (Query_Get r ''country''), Getenv ''API_KEY''] @
            snd (getWeatherValue L wd (Query_Get r ''country'') (Environ wd ''API_KEY'')))"
  using assms by (cases "getRedisValue wd db (Query_Get r ''country'')";
      cases "getWeatherValue L wd (Query_Get r ''country'') (Environ wd ''API_KEY'')")
    (use getRedisValue_events [of wd db "Query_Get r ''country''"] in \<open>simp add: redisMiddleware_def\<close>)

lemma redisMiddleware_set_failed:
  assumes "fst (getRedisValue wd db (Query_Get r ''country'')) = Inl e"
    and "Environ wd ''API_KEY'' \<noteq> []"
    and "fst (getWeatherValue L wd (Query_Get r ''country'') (Environ wd ''API_KEY'')) = Inr weather"
    and "Marshal L weather = Inr data"
    and "SetFault wd = Some err"
  shows "redisMiddleware L wd w r db =
           (http_Error w ''Error setting value in Redis'' StatusInternalServerError, db,
            [RedisGet (Query_Get r ''country''), Getenv ''API_KEY''] @
            snd (getWeatherValue L wd (Query_Get r ''country'') (Environ wd ''API_KEY'')) @
            [RedisSet (Query_Get r ''country'') data cache_ttl])"
  using assms by (cases "getRedisValue wd db (Query_Get r ''country'')";
      cases "getWeatherValue L wd (Query_Get r ''country'') (Environ wd ''API_KEY'')")
    (use getRedisValue_events [of wd db "Query_Get r ''country''"] in
      \<open>simp add: redisMiddleware_def setRedisValue_def Let_def\<close>)

lemma redisMiddleware_fill:
  assumes "fst (getRedisValue wd db (Query_Get r ''country'')) = Inl e"
    and "Environ wd ''API_KEY'' \<noteq> []"
    and "fst (getWeatherValue L wd (Query_Get r ''country'') (Environ wd ''API_KEY'')) = Inr weather"
    and "Marshal L weather = Inr data"
    and "SetFault wd = None"
  shows "redisMiddleware L wd w r db =
           (Write w data, db(Query_Get r ''country'' \<mapsto> (data, now wd + cache_ttl)),
            [RedisGet (Query_Get r ''country''), Getenv ''API_KEY''] @
            snd (getWeatherValue L wd (Query_Get r ''country'') (Environ wd ''API_KEY'')) @
            [RedisSet (Query_Get r ''country'') data cache_ttl, Println ''No redis''])"
  using assms by (cases "getRedisValue wd db (Query_Get r ''country'')";
      cases "getWeatherValue L wd (Query_Get r ''country'') (Environ wd ''API_KEY'')")
    (use getRedisValue_events [of wd db "Query_Get r ''country''"] in
      \<open>simp add: redisMiddleware_def setRedisValue_def Let_def\<close>)

lemma getWeatherValue_events:
  "snd (getWeatherValue L wd country key) = [] \<or>
   snd (getWeatherValue L wd country key) =
     [HttpDo (weather_url (if country = [] then default_country else country) key)]"
  by (simp add: getWeatherValue_def Let_def split: option.splits http_result.splits sum.splits)

lemma getWeatherValue_only_HttpDo:
  "e \<in> set (snd (getWeatherValue L wd country key)) \<Longrightarrow> is_HttpDo e"
  using getWeatherValue_events [of L wd country key] by auto

lemma getWeatherValue_no_cache_events:
  "filter is_RedisGet (snd (getWeatherValue L wd country key)) = []"
  "filter is_RedisSet (snd (getWeatherValue L wd country key)) = []"
  using getWeatherValue_events [of L wd country key] by auto

lemma redisMiddleware_cases:
  obtains
    (hit) val where "fst (getRedisValue wd db (Query_Get r ''country'')) = Inr val"
  | (no_key) e where "fst (getRedisValue wd db (Query_Get r ''country'')) = Inl e"
      "Environ wd ''API_KEY'' = []"
  | (fetch_failed) e err where "fst (getRedisValue wd db (Query_Get r ''country'')) = Inl e"
      "Environ wd ''API_KEY'' \<noteq> []"
      "fst (getWeatherValue L wd (Query_Get r ''country'') (Environ wd ''API_KEY'')) = Inl err"
  | (marshal_failed) e weather err where "fst (getRedisValue wd db (Query_Get r ''country'')) = Inl e"
      "Environ wd ''API_KEY'' \<noteq> []"
      "fst (getWeatherValue L wd (Query_Get r ''country'') (Environ wd ''API_KEY'')) = Inr weather"
      "Marshal L weather = Inl err"
  | (set_failed) e weather data err where "fst (getRedisValue wd db (Query_Get r ''country'')) = Inl e"
      "Environ wd ''API_KEY'' \<noteq> []"
      "fst (getWeatherValue L wd (Query_Get r ''country'') (Environ wd ''API_KEY'')) = Inr weather"
      "Marshal L weather = Inr data" "SetFault wd = Some err"
  | (fill) e weather data where "fst (getRedisValue wd db (Query_Get r ''country'')) = Inl e"
      "Environ wd ''API_KEY'' \<noteq> []"
      "fst (getWeatherValue L wd (Query_Get r ''country'') (Environ wd ''API_KEY'')) = Inr weather"
      "Marshal L weather = Inr data" "SetFault wd = None"
proof (cases "fst (getRedisValue wd db (Query_Get r ''country''))")
  case (Inr val)
  then show ?thesis by (rule hit)
next
  case miss: (Inl e)
  show ?thesis
  proof (cases "Environ wd ''API_KEY'' = []")
    case True
    with miss show ?thesis by (rule no_key)
  next
    case key: False
    show ?thesis
    proof (cases "fst (getWeatherValue L wd (Query_Get r ''country'') (Environ wd ''API_KEY''))")
      case (Inl err)
      with miss key show ?thesis by (rule fetch_failed)
    next
      case fetched: (Inr weather)
      show ?thesis
      proof (cases "Marshal L weather")
        case (Inl err)
        with miss key fetched show ?thesis by (rule marshal_failed)
      next
        case data: (Inr data)
        show ?thesis
        proof (cases "SetFault wd")
          case None
          with miss key fetched data show ?thesis by (rule fill)
        next
          case (Some err)
          with miss key fetched data show ?thesis by (rule set_failed)
        qed
      qed
    qed
  qed
qed

lemma redisMiddleware_cache_calls:
  "length (filter is_RedisGet (snd (snd (redisMiddleware L wd w r db)))) \<le> 1 \<and>
   length (filter is_RedisSet (snd (snd (redisMiddleware L wd w r db)))) \<le> 1"
proof (cases rule: redisMiddleware_cases [where wd = wd and db = db and r = r and L = L])
  case hit
  then show ?thesis by (simp add: redisMiddleware_hit)
next
  case no_key
  then show ?thesis by (simp add: redisMiddleware_no_key)
next
  case fetch_failed
  then show ?thesis
    by (simp add: redisMiddleware_fetch_failed getWeatherValue_no_cache_events)
next
  case marshal_failed
  then show ?thesis
    by (simp add: redisMiddleware_marshal_failed getWeatherValue_no_cache_events)
next
  case set_failed
  then show ?thesis
    by (simp add: redisMiddleware_set_failed getWeatherValue_no_cache_events)
next
  case fill
  then show ?thesis
    by (simp add: redisMiddleware_fill getWeatherValue_no_cache_events)
qed

lemma redisMiddleware_status:
  "status (fst (redisMiddleware L wd w0 r db)) = Some StatusOK \<or>
   status (fst (redisMiddleware L wd w0 r db)) = Some StatusInternalServerError"
proof (cases rule: redisMiddleware_cases [where wd = wd and db = db and r = r and L = L])
  case hit
  then show ?thesis by (simp add: redisMiddleware_hit Write_w0)
next
  case no_key
  then show ?thesis by (simp add: redisMiddleware_no_key http_Error_w0)
next
  case fetch_failed
  then show ?thesis by (simp add: redisMiddleware_fetch_failed http_Error_w0)
next
  case marshal_failed
  then show ?thesis by (simp add: redisMiddleware_marshal_failed http_Error_w0)
next
  case set_failed
  then show ?thesis by (simp add: redisMiddleware_set_failed http_Error_w0)
next
  case fill
  then show ?thesis by (simp add: redisMiddleware_fill Write_w0)
qed

section \<open>The registry of limiters\<close>

lemma registry_ok_empty: "registry_ok registry_empty"
  by (simp add: registry_ok_def registry_empty_def)

lemma rateLimiterMiddleware_eq:
  "rateLimiterMiddleware L next limit b wd w r (reg, db) =
     (if \<not> fst (check_limiter L limit b wd r reg)
      then (Write (WriteHeader (Header_Set w ''Content-Type'' ''application/json'')
                     StatusTooManyRequests) too_many_requests_body,
            (snd (check_limiter L limit b wd r reg), db), snd (getIP L r))
      else (fst (next wd w r db),
            (snd (check_limiter L limit b wd r reg), fst (snd (next wd w r db))),
            snd (getIP L r) @ snd (snd (next wd w r db))))"
  by (simp add: rateLimiterMiddleware_def check_limiter_def Let_def split: prod.splits)

lemma check_limiter_seen:
  assumes "ipLimiterMap reg (fst (getIP L r)) = Some a"
  shows "check_limiter L limit b wd r reg =
           (fst (Allow (heap reg ! a) (now wd)),
            reg\<lparr>heap := (heap reg)[a := snd (Allow (heap reg ! a) (now wd))]\<rparr>)"
  using assms by (simp add: check_limiter_def lookup_or_create_def split: prod.splits)

lemma check_limiter_first:
  assumes "ipLimiterMap reg (fst (getIP L r)) = None"
  shows "check_limiter L limit b wd r reg =
           (fst (Allow (NewLimiter limit b) (now wd)),
            \<lparr>ipLimiterMap = (ipLimiterMap reg)(fst (getIP L r) \<mapsto> length (heap reg)),
             heap = heap reg @ [snd (Allow (NewLimiter limit b) (now wd))]\<rparr>)"
  using assms by (simp add: check_limiter_def lookup_or_create_def split: prod.splits)

lemma check_limiter_ok:
  assumes "registry_ok reg"
  shows "registry_ok (snd (check_limiter L limit b wd r reg))"
proof (cases "ipLimiterMap reg (fst (getIP L r))")
  case None
  with assms show ?thesis
    by (fastforce simp: check_limiter_first registry_ok_def split: if_splits)
next
  case (Some a)
  with assms show ?thesis
    by (simp add: check_limiter_seen registry_ok_def)
qed

lemma check_limiter_own:
  assumes "registry_ok reg" and "fst (getIP L r) = c"
  shows "fst (check_limiter L limit b wd r reg) = fst (Allow (start_limiter reg c limit b) (now wd))"
    and "limiter_of (snd (check_limiter L limit b wd r reg)) c =
           Some (snd (Allow (start_limiter reg c limit b) (now wd)))"
proof -
  show "fst (check_limiter L limit b wd r reg) = fst (Allow (start_limiter reg c limit b) (now wd))"
    using assms
    by (cases "ipLimiterMap reg c")
      (simp_all add: check_limiter_first check_limiter_seen start_limiter_def limiter_of_def)
  show "limiter_of (snd (check_limiter L limit b wd r reg)) c =
           Some (snd (Allow (start_limiter reg c limit b) (now wd)))"
    using assms
    by (cases "ipLimiterMap reg c")
      (simp_all add: check_limiter_first check_limiter_seen start_limiter_def limiter_of_def
        registry_ok_def)
qed

lemma check_limiter_other:
  assumes "registry_ok reg" and "fst (getIP L r) \<noteq> d"
  shows "limiter_of (snd (check_limiter L limit b wd r reg)) d = limiter_of reg d"
proof (cases "ipLimiterMap reg (fst (getIP L r))")
  case None
  with assms show ?thesis
    by (cases "ipLimiterMap reg d")
      (auto simp: check_limiter_first limiter_of_def registry_ok_def nth_append)
next
  case seen: (Some a)
  show ?thesis
  proof (cases "ipLimiterMap reg d")
    case None
    with seen show ?thesis
      by (simp add: check_limiter_seen limiter_of_def)
  next
    case (Some a')
    with assms seen have "a \<noteq> a'"
      unfolding registry_ok_def by blast
    with seen Some show ?thesis
      by (simp add: check_limiter_seen limiter_of_def)
  qed
qed

lemma check_limiter_pointer_kept:
  assumes "ipLimiterMap reg c = Some a"
  shows "ipLimiterMap (snd (check_limiter L limit b wd r reg)) c = Some a"
  using assms
  by (cases "ipLimiterMap reg (fst (getIP L r))")
    (auto simp: check_limiter_first check_limiter_seen)

section \<open>The token bucket\<close>

lemma Allow_fields [simp]:
  "rate (snd (Allow lm t)) = rate lm"
  "burst (snd (Allow lm t)) = burst lm"
  "lastRefill (snd (Allow lm t)) = t"
  by (simp_all add: Allow_def refill_def Let_def)

lemma refill_tokens_full:
  assumes "0 \<le> rate lm" and "tokens lm = of_nat (burst lm)"
  shows "tokens (refill lm t) = of_nat (burst lm)"
proof -
  have "0 \<le> (if t < lastRefill lm then 0 else t - lastRefill lm) * rate lm"
    using assms(1) by simp
  with assms(2) show ?thesis
    by (simp add: refill_def Let_def min_def)
qed


lemma Allow_tokens_le_burst:
  "tokens (snd (Allow lm t)) \<le> of_nat (burst lm)"
proof -
  have "tokens (refill lm t) \<le> of_nat (burst lm)"
    by (simp add: refill_def Let_def)
  then show ?thesis
    by (simp add: Allow_def Let_def)
qed

lemma allow_all_Cons:
  "allow_all lm (t # ts) =
     (fst (Allow lm t) # fst (allow_all (snd (Allow lm t)) ts),
      snd (allow_all (snd (Allow lm t)) ts))"
  by (simp split: prod.splits)


lemma allow_all_rate [simp]: "rate (snd (allow_all lm ts)) = rate lm"
  by (induction ts arbitrary: lm) (simp_all add: allow_all_Cons del: allow_all.simps(2))

lemma allow_all_burst [simp]: "burst (snd (allow_all lm ts)) = burst lm"
  by (induction ts arbitrary: lm) (simp_all add: allow_all_Cons del: allow_all.simps(2))



lemma length_allow_all [simp]: "length (fst (allow_all lm ts)) = length ts"
  by (induction ts arbitrary: lm) (simp_all add: allow_all_Cons del: allow_all.simps(2))

lemma sorted_le_last:
  fixes x :: rat
  assumes "sorted (x # xs)"
  shows "x \<le> last (x # xs)"
proof (cases "xs = []")
  case True
  then show ?thesis by simp
next
  case False
  then have "last xs \<in> set xs"
    by (rule last_in_set)
  with assms False show ?thesis
    by simp
qed

text \<open>n tokens in hand and less than one more to come: n admitted, then one denied.\<close>

lemma allow_all_window:
  assumes "0 < rate lm"
    and "sorted (lastRefill lm # ts)"
    and "tokens lm \<le> of_nat (burst lm)"
    and "of_nat n \<le> tokens lm"
    and "tokens lm + rate lm * (last (lastRefill lm # ts) - lastRefill lm) < of_nat n + 1"
    and "length ts = n + 1"
  shows "fst (allow_all lm ts) = replicate n True @ [False]"
  using assms
proof (induction ts arbitrary: lm n)
  case Nil
  then show ?case by simp
next
  case (Cons t ts)
  let ?t0 = "lastRefill lm"
  let ?lm' = "snd (Allow lm t)"
  from Cons.prems(2) have t0_le: "?t0 \<le> t"
    by simp
  from Cons.prems(2) have t_le_last: "t \<le> last (t # ts)"
    by (simp add: sorted_le_last)
  have gain: "0 \<le> rate lm * (t - ?t0)"
    using Cons.prems(1) t0_le by simp
  have mono: "rate lm * (t - ?t0) \<le> rate lm * (last (t # ts) - ?t0)"
    using Cons.prems(1) t_le_last by simp
  have refilled: "tokens (refill lm t) = min (of_nat (burst lm)) (tokens lm + rate lm * (t - ?t0))"
    using t0_le by (simp add: refill_def Let_def mult.commute)
  have upper: "tokens (refill lm t) \<le> tokens lm + rate lm * (t - ?t0)"
    by (simp add: refilled)
  have lower: "tokens lm \<le> tokens (refill lm t)"
    using gain Cons.prems(3) by (simp add: refilled)
  show ?case
  proof (cases n)
    case 0
    with Cons.prems(6) have "ts = []"
      by simp
    moreover have "tokens (refill lm t) < 1"
      using upper mono Cons.prems(5) 0 by simp
    ultimately show ?thesis
      using 0 by (simp add: Allow_def Let_def)
  next
    case (Suc m)
    have admitted: "1 \<le> tokens (refill lm t)"
      using lower Cons.prems(4) Suc by simp
    then have allow: "Allow lm t = (True, (refill lm t)\<lparr>tokens := tokens (refill lm t) - 1\<rparr>)"
      by (simp add: Allow_def Let_def)
    have tok': "tokens ?lm' = tokens (refill lm t) - 1"
      by (simp add: allow)
    have "fst (allow_all ?lm' ts) = replicate m True @ [False]"
    proof (rule Cons.IH)
      show "0 < rate ?lm'"
        using Cons.prems(1) by simp
      show "sorted (lastRefill ?lm' # ts)"
        using Cons.prems(2) by simp
      show "tokens ?lm' \<le> of_nat (burst ?lm')"
        using Allow_tokens_le_burst [of lm t] by simp
      show "of_nat m \<le> tokens ?lm'"
        using lower Cons.prems(4) Suc by (simp add: tok')
      show "length ts = m + 1"
        using Cons.prems(6) Suc by simp
      have "tokens ?lm' + rate lm * (last (t # ts) - t)
              \<le> tokens lm + rate lm * (t - ?t0) - 1 + rate lm * (last (t # ts) - t)"
        using upper by (simp add: tok')
      also have "\<dots> = tokens lm + rate lm * (last (t # ts) - ?t0) - 1"
        by (simp add: algebra_simps)
      also have "\<dots> < of_nat m + 1"
        using Cons.prems(5) Suc by (cases ts) simp_all
      finally show "tokens ?lm' + rate ?lm' * (last (lastRefill ?lm' # ts) - lastRefill ?lm')
                      < of_nat m + 1"
        by simp
    qed
    then show ?thesis
      using Suc by (simp add: allow_all_Cons allow del: allow_all.simps(2))
  qed
qed

section \<open>Runs of the rate-limited handler\<close>

lemma allow_all_full_bucket:
  assumes "0 < rate lm"
    and "tokens lm = of_nat (burst lm)"
    and "sorted ts"
    and "length ts = burst lm + 1"
    and "rate lm * (last ts - hd ts) < 1"
  shows "fst (allow_all lm ts) = replicate (burst lm) True @ [False]"
proof -
  from assms(4) obtain t ts' where ts: "ts = t # ts'"
    by (cases ts) simp_all
  have full: "tokens (refill lm t) = of_nat (burst lm)"
    using assms(1,2) by (simp add: refill_tokens_full)
  show ?thesis
  proof (cases "burst lm")
    case 0
    with assms(4) ts have "ts' = []"
      by simp
    with 0 full ts show ?thesis
      by (simp add: Allow_def Let_def)
  next
    case (Suc m)
    let ?lm' = "snd (Allow lm t)"
    have allow: "Allow lm t = (True, (refill lm t)\<lparr>tokens := tokens (refill lm t) - 1\<rparr>)"
      using full Suc by (simp add: Allow_def Let_def)
    have tok': "tokens ?lm' = of_nat m"
      using full Suc by (simp add: allow)
    have "fst (allow_all ?lm' ts') = replicate m True @ [False]"
    proof (rule allow_all_window)
      show "0 < rate ?lm'"
        using assms(1) by simp
      show "sorted (lastRefill ?lm' # ts')"
        using assms(3) ts by simp
      show "tokens ?lm' \<le> of_nat (burst ?lm')"
        using Suc by (simp add: tok')
      show "of_nat m \<le> tokens ?lm'"
        by (simp add: tok')
      show "length ts' = m + 1"
        using assms(4) ts Suc by simp
      show "tokens ?lm' + rate ?lm' * (last (lastRefill ?lm' # ts') - lastRefill ?lm') < of_nat m + 1"
        using assms(5) ts by (simp add: tok')
    qed
    with Suc ts show ?thesis
      by (simp add: allow_all_Cons allow del: allow_all.simps(2))
  qed
qed


lemma serve_Cons:
  "serve h st ((wd, r) # rest) =
     ((fst (h wd w0 r st), snd (snd (h wd w0 r st))) # fst (serve h (fst (snd (h wd w0 r st))) rest),
      snd (serve h (fst (snd (h wd w0 r st))) rest))"
  by (simp split: prod.splits)

lemma length_serve [simp]: "length (fst (serve h st tr)) = length tr"
  by (induction tr arbitrary: st) (auto simp: serve_Cons simp del: serve.simps(2))

lemma limited_rejected:
  "rejected (fst (rateLimiterMiddleware L (redisMiddleware L) limit b wd w0 r (reg, db)),
             snd (snd (rateLimiterMiddleware L (redisMiddleware L) limit b wd w0 r (reg, db))))
     \<longleftrightarrow> \<not> fst (check_limiter L limit b wd r reg)"
  using redisMiddleware_status [of L wd r db]
  by (auto simp: rateLimiterMiddleware_eq rejected_def Write_def WriteHeader_def Header_Set_def
      w0_def StatusOK_def StatusTooManyRequests_def StatusInternalServerError_def)

lemma limited_registry:
  "fst (fst (snd (rateLimiterMiddleware L next limit b wd w r (reg, db)))) =
     snd (check_limiter L limit b wd r reg)"
  by (simp add: rateLimiterMiddleware_eq)

lemma start_limiter_own:
  assumes "registry_ok reg" and "fst (getIP L r) = c"
  shows "start_limiter (snd (check_limiter L limit b wd r reg)) c limit b =
           snd (Allow (start_limiter reg c limit b) (now wd))"
  using check_limiter_own(2) [OF assms, of limit b wd]
  by (simp add: start_limiter_def)

lemma start_limiter_other:
  assumes "registry_ok reg" and "fst (getIP L r) \<noteq> d"
  shows "start_limiter (snd (check_limiter L limit b wd r reg)) d limit' b' =
           start_limiter reg d limit' b'"
  using check_limiter_other [OF assms, of limit b wd]
  by (simp add: start_limiter_def)

lemma serve_limited:
  assumes "registry_ok reg"
  shows "registry_ok (fst (snd (serve (rateLimiterMiddleware L (redisMiddleware L) limit b) (reg, db) tr))) \<and>
         map rejected (responses_to L c tr
           (fst (serve (rateLimiterMiddleware L (redisMiddleware L) limit b) (reg, db) tr))) =
           map Not (fst (allow_all (start_limiter reg c limit b)
             (map (\<lambda>x. now (fst x)) (filter (from_client L c) tr)))) \<and>
         start_limiter (fst (snd (serve (rateLimiterMiddleware L (redisMiddleware L) limit b) (reg, db) tr)))
             c limit b =
           snd (allow_all (start_limiter reg c limit b)
             (map (\<lambda>x. now (fst x)) (filter (from_client L c) tr)))"
  using assms
proof (induction tr arbitrary: reg db)
  case Nil
  then show ?case
    by (simp add: responses_to_def)
next
  case (Cons x tr)
  obtain wd r where x: "x = (wd, r)"
    by (cases x)
  let ?h = "rateLimiterMiddleware L (redisMiddleware L) limit b"
  let ?reg1 = "snd (check_limiter L limit b wd r reg)"
  have "fst (snd (?h wd w0 r (reg, db))) =
      (?reg1, snd (fst (snd (?h wd w0 r (reg, db)))))"
    by (simp add: rateLimiterMiddleware_eq)
  then obtain db1 where st1: "fst (snd (?h wd w0 r (reg, db))) = (?reg1, db1)"
    by blast
  have ok1: "registry_ok ?reg1"
    using Cons.prems by (rule check_limiter_ok)
  note IH = Cons.IH [OF ok1, of db1]
  show ?case
  proof (cases "fst (getIP L r) = c")
    case True
    then have "from_client L c (wd, r)"
      by (simp add: from_client_def)
    moreover have "start_limiter ?reg1 c limit b = snd (Allow (start_limiter reg c limit b) (now wd))"
      using Cons.prems True by (rule start_limiter_own)
    moreover have "fst (check_limiter L limit b wd r reg) =
        fst (Allow (start_limiter reg c limit b) (now wd))"
      using Cons.prems True by (rule check_limiter_own(1))
    ultimately show ?thesis
      using IH limited_rejected [of L limit b wd r reg db]
      by (simp add: x serve_Cons st1 responses_to_def allow_all_Cons
          del: serve.simps(2) allow_all.simps(2))
  next
    case False
    then have "\<not> from_client L c (wd, r)"
      by (simp add: from_client_def)
    moreover have "start_limiter ?reg1 c limit b = start_limiter reg c limit b"
      using Cons.prems False by (rule start_limiter_other)
    ultimately show ?thesis
      using IH
      by (simp add: x serve_Cons st1 responses_to_def del: serve.simps(2))
  qed
qed

section \<open>More on the upstream fetch\<close>

lemma getWeatherValue_ok_events:
  assumes "fst (getWeatherValue L wd country key) = Inr weather"
  shows "snd (getWeatherValue L wd country key) =
           [HttpDo (weather_url (if country = [] then default_country else country) key)]"
  using assms
  by (simp add: getWeatherValue_def Let_def
      split: if_splits option.splits http_result.splits sum.splits)

lemma getWeatherValue_default:
  "getWeatherValue L wd [] key = getWeatherValue L wd default_country key"
  by (simp add: getWeatherValue_def default_country_def)

lemma getWeatherValue_error_kinds:
  assumes "key \<noteq> []" and "fst (getWeatherValue L wd country key) = Inl err"
  shows "(\<exists>e. NewRequest L (weather_url (if country = [] then default_country else country) key) = Some e
            \<and> err = ''failed to create HTTP request: '' @ e) \<or>
         (\<exists>e. Do wd (weather_url (if country = [] then default_country else country) key) = DoFailed e
            \<and> err = ''failed to make HTTP request: '' @ e) \<or>
         (\<exists>e. Do wd (weather_url (if country = [] then default_country else country) key) = ReadFailed e
            \<and> err = ''failed to read response body: '' @ e) \<or>
         (\<exists>code bs. Do wd (weather_url (if country = [] then default_country else country) key) = Reply code bs
            \<and> code \<noteq> StatusOK
            \<and> err = ''status code : '' @ itoa code @ '' , message : '' @ bs) \<or>
         (\<exists>bs. Do wd (weather_url (if country = [] then default_country else country) key) = Reply StatusOK bs
            \<and> Unmarshal L bs = Inl err)"
  using assms
  by (simp add: getWeatherValue_def Let_def
      split: if_splits option.splits http_result.splits sum.splits)

lemma getIP_events_no_cache:
  "filter is_RedisGet (snd (getIP L r)) = []" "filter is_RedisSet (snd (getIP L r)) = []"
  by (simp_all add: getIP_def split: sum.splits prod.splits)

lemma getRedisValue_Environ [simp]:
  "getRedisValue (wd\<lparr>Environ := env\<rparr>) db key = getRedisValue wd db key"
  by (simp add: getRedisValue_def split: option.splits)

text \<open>Each way the fetch can fail gives its own error, and a good reply gives the weather.\<close>

lemma getWeatherValue_fails:
  assumes "key \<noteq> []"
    and "NewRequest L (fetch_url country key) = Some e \<and>
           err = ''failed to create HTTP request: '' @ e \<or>
         NewRequest L (fetch_url country key) = None \<and>
           Do wd (fetch_url country key) = DoFailed e \<and>
           err = ''failed to make HTTP request: '' @ e \<or>
         NewRequest L (fetch_url country key) = None \<and>
           Do wd (fetch_url country key) = ReadFailed e \<and>
           err = ''failed to read response body: '' @ e \<or>
         NewRequest L (fetch_url country key) = None \<and>
           Do wd (fetch_url country key) = Reply code bs \<and> code \<noteq> StatusOK \<and>
           err = ''status code : '' @ itoa code @ '' , message : '' @ bs \<or>
         NewRequest L (fetch_url country key) = None \<and>
           Do wd (fetch_url country key) = Reply StatusOK bs \<and> Unmarshal L bs = Inl err"
  shows "fst (getWeatherValue L wd country key) = Inl err"
  using assms
  by (auto simp: getWeatherValue_def fetch_url_def Let_def)

lemma getWeatherValue_succeeds:
  assumes "key \<noteq> []"
    and "NewRequest L (fetch_url country key) = None"
    and "Do wd (fetch_url country key) = Reply StatusOK bs"
    and "Unmarshal L bs = Inr weather"
  shows "fst (getWeatherValue L wd country key) = Inr weather"
  using assms
  by (simp add: getWeatherValue_def fetch_url_def Let_def)

section \<open>The example inputs, evaluated\<close>

lemma ex_Query_Get [simp]: "Query_Get (ex_request addr country) ''country'' = country"
  by (simp add: Query_Get_def ex_request_def)

lemma ex_world_simps [simp]:
  "now (ex_world t) = t" "Environ (ex_world t) ''API_KEY'' = ''k''"
  "GetFault (ex_world t) = None" "SetFault (ex_world t) = None"
  "Do (ex_world t) = ex_Do"
  by (simp_all add: ex_world_def ex_env_def)

lemma ex_world_set_down_simps [simp]:
  "now (ex_world_set_down t) = t" "Environ (ex_world_set_down t) ''API_KEY'' = ''k''"
  "GetFault (ex_world_set_down t) = None" "SetFault (ex_world_set_down t) = Some ''i/o timeout''"
  "Do (ex_world_set_down t) = ex_Do"
  by (simp_all add: ex_world_set_down_def)

lemma ex_libs_simps [simp]:
  "NewRequest ex_libs url = None" "Unmarshal ex_libs = ex_Unmarshal" "Marshal ex_libs = ex_Marshal"
  "SplitHostPort ex_libs = net_SplitHostPort"
  by (simp_all add: ex_libs_def)

lemma ex_Marshal_weather: "ex_Marshal ex_weather = Inr ex_data"
  by (simp add: ex_Marshal_def ex_weather_def ex_data_def)

lemma ex_Do_maltepe: "ex_Do (weather_url ''maltepe'' ''k'') = Reply 200 ex_body"
  by (simp add: ex_Do_def)

lemma ex_Do_ankara: "ex_Do (weather_url ''ankara'' ''k'') = Reply 500 ''down''"
  by (simp add: ex_Do_def weather_url_def)

lemma ex_fetch_maltepe:
  assumes "Do wd = ex_Do"
  shows "getWeatherValue ex_libs wd ''maltepe'' ''k'' =
           (Inr ex_weather, [HttpDo (weather_url ''maltepe'' ''k'')])"
  using assms by (simp add: getWeatherValue_def ex_Do_maltepe ex_Unmarshal_def StatusOK_def)

lemma ex_fetch_empty:
  assumes "Do wd = ex_Do"
  shows "getWeatherValue ex_libs wd [] ''k'' =
           (Inr ex_weather, [HttpDo (weather_url ''maltepe'' ''k'')])"
  using assms
  by (simp add: getWeatherValue_def default_country_def ex_Do_maltepe ex_Unmarshal_def StatusOK_def)

lemma ex_fetch_ankara:
  assumes "Do wd = ex_Do"
  shows "getWeatherValue ex_libs wd ''ankara'' ''k'' =
           (Inl (''status code : '' @ itoa 500 @ '' , message : down''),
            [HttpDo (weather_url ''ankara'' ''k'')])"
  using assms by (simp add: getWeatherValue_def ex_Do_ankara StatusOK_def)

lemma ex_miss_empty_cache: "fst (getRedisValue (ex_world t) Map.empty key) = Inl redis_Nil"
  by (simp add: getRedisValue_def)

lemma ex_fill_maltepe:
  "redisMiddleware ex_libs (ex_world t) w0 (ex_request addr ''maltepe'') Map.empty =
     (\<lparr>Header = [], status = Some StatusOK, body = ex_data\<rparr>,
      [''maltepe'' \<mapsto> (ex_data, t + cache_ttl)],
      [RedisGet ''maltepe'', Getenv ''API_KEY'', HttpDo (weather_url ''maltepe'' ''k''),
       RedisSet ''maltepe'' ex_data cache_ttl, Println ''No redis''])"
  using redisMiddleware_fill [of "ex_world t" Map.empty "ex_request addr ''maltepe''" redis_Nil
      ex_libs ex_weather ex_data w0]
  by (simp add: ex_miss_empty_cache ex_fetch_maltepe ex_Marshal_weather Write_w0)

section \<open>More on the limiter, and the example runs\<close>

lemma start_limiter_fresh:
  "ipLimiterMap reg c = None \<Longrightarrow> start_limiter reg c limit b = NewLimiter limit b"
  by (simp add: start_limiter_def limiter_of_def)

lemma NewLimiter_simps [simp]:
  "rate (NewLimiter limit b) = limit" "burst (NewLimiter limit b) = b"
  "tokens (NewLimiter limit b) = of_nat b" "lastRefill (NewLimiter limit b) = 0"
  by (simp_all add: NewLimiter_def)

lemma getIP_unsplit:
  "SplitHostPort L (RemoteAddr r) = Inl e \<Longrightarrow> getIP L r = ([], [Println (''Error parsing IP : %v '' @ e)])"
  by (simp add: getIP_def)

lemma ex_getIP_A: "getIP ex_libs (ex_request ''203.0.113.7:5000'' country) = (''203.0.113.7'', [])"
  by (simp add: getIP_def ex_request_def ex_libs_def net_SplitHostPort_def LastIndexByte_def)

lemma ex_getIP_B: "getIP ex_libs (ex_request ''198.51.100.2:41000'' country) = (''198.51.100.2'', [])"
  by (simp add: getIP_def ex_request_def ex_libs_def net_SplitHostPort_def LastIndexByte_def)

lemma ex_split_at: "net_SplitHostPort ''@'' = Inl ''address @: missing port in address''"
  by (simp add: net_SplitHostPort_def LastIndexByte_def addrErr_def)

lemma ex_split_pipe: "net_SplitHostPort ''pipe'' = Inl ''address pipe: missing port in address''"
  by (simp add: net_SplitHostPort_def LastIndexByte_def addrErr_def)





lemma ex_unsplit_bad:
  "\<forall>x \<in> set ex_unsplit. \<exists>e. SplitHostPort ex_libs (RemoteAddr (snd x)) = Inl e"
  by (simp add: ex_unsplit_def ex_request_def ex_split_at ex_split_pipe)

lemma ex_burst_not_other:
  "filter (from_client ex_libs ''198.51.100.2'') ex_burst = []"
  by (rule filter_False) (auto simp: ex_burst_def from_client_def ex_getIP_A)

section \<open>The claims\<close>

text \<open>
  C6. When the cache \<open>Get\<close> of a request returns a value, the response is status 200 with
  exactly that value as body, the cache is left as it was, and the request makes no
  upstream call and no cache \<open>Set\<close>. Every request to the \<open>/weather\<close> handler, admitted
  or not, makes at most one cache read and at most one cache write.
\<close>

theorem cache_hit_returns_cached_payload:
  "(fst (getRedisValue wd db (Query_Get r ''country'')) = Inr val \<longrightarrow>
      fst (redisMiddleware L wd w0 r db) = \<lparr>Header = [], status = Some StatusOK, body = val\<rparr> \<and>
      fst (snd (redisMiddleware L wd w0 r db)) = db \<and>
      filter is_HttpDo (snd (snd (redisMiddleware L wd w0 r db))) = [] \<and>
      filter is_RedisSet (snd (snd (redisMiddleware L wd w0 r db))) = []) \<and>
   length (filter is_RedisGet (snd (snd (weatherHandler L wd' w' r' st)))) \<le> 1 \<and>
   length (filter is_RedisSet (snd (snd (weatherHandler L wd' w' r' st)))) \<le> 1"
proof -
  obtain reg db' where st: "st = (reg, db')"
    by (cases st)
  have "length (filter is_RedisGet (snd (snd (weatherHandler L wd' w' r' st)))) \<le> 1 \<and>
        length (filter is_RedisSet (snd (snd (weatherHandler L wd' w' r' st)))) \<le> 1"
    using redisMiddleware_cache_calls [of L wd' w' r' db']
    by (simp add: st weatherHandler_def rateLimiterMiddleware_eq getIP_events_no_cache)
  then show ?thesis
    by (simp add: redisMiddleware_hit Write_w0)
qed

text \<open>C6 at a cache holding \<open>maltepe\<close>.\<close>

theorem cache_hit_returns_cached_payload_witness:
  "fst (getRedisValue (ex_world 10) ex_db (Query_Get (ex_request ''203.0.113.7:5000'' ''maltepe'') ''country''))
     = Inr ex_data \<and>
   fst (redisMiddleware ex_libs (ex_world 10) w0 (ex_request ''203.0.113.7:5000'' ''maltepe'') ex_db)
     = \<lparr>Header = [], status = Some StatusOK, body = ex_data\<rparr> \<and>
   fst (snd (redisMiddleware ex_libs (ex_world 10) w0 (ex_request ''203.0.113.7:5000'' ''maltepe'') ex_db))
     = ex_db"
proof -
  have hit: "fst (getRedisValue (ex_world 10) ex_db
      (Query_Get (ex_request ''203.0.113.7:5000'' ''maltepe'') ''country'')) = Inr ex_data"
    by (simp add: getRedisValue_def ex_world_def ex_db_def Query_Get_def ex_request_def)
  with cache_hit_returns_cached_payload [of "ex_world 10" ex_db
      "ex_request ''203.0.113.7:5000'' ''maltepe''" ex_data ex_libs]
  show ?thesis
    by simp
qed

text \<open>
  C10. When the cache misses and \<open>API_KEY\<close> is unset or empty (\<open>os.Getenv\<close> gives the
  empty string for both), the request fails with status 500 and the body
  \<open>Api key could not found\<close>, the cache is left as it was, and no upstream call and no
  cache \<open>Set\<close> are made. When the cache hits, the response is the cached value with
  status 200 whatever the environment holds, and the environment is not read.
\<close>
theorem missing_api_key_fails_only_on_miss:
  "(fst (getRedisValue wd db (Query_Get r ''country'')) = Inl e \<and> Environ wd ''API_KEY'' = [] \<longrightarrow>
      fst (redisMiddleware L wd w0 r db) =
        \<lparr>Header = [], status = Some StatusInternalServerError,
         body = ''Api key could not found'' @ newline\<rparr> \<and>
      fst (snd (redisMiddleware L wd w0 r db)) = db \<and>
      filter is_HttpDo (snd (snd (redisMiddleware L wd w0 r db))) = [] \<and>
      filter is_RedisSet (snd (snd (redisMiddleware L wd w0 r db))) = []) \<and>
   (fst (getRedisValue wd db (Query_Get r ''country'')) = Inr val \<longrightarrow>
      fst (redisMiddleware L (wd\<lparr>Environ := env\<rparr>) w0 r db) =
        \<lparr>Header = [], status = Some StatusOK, body = val\<rparr> \<and>
      filter is_Getenv (snd (snd (redisMiddleware L (wd\<lparr>Environ := env\<rparr>) w0 r db))) = [])"
  by (simp add: redisMiddleware_no_key redisMiddleware_hit Write_w0 http_Error_w0)

text \<open>C10 at a cache holding \<open>maltepe\<close>, with no API key in the environment.\<close>

theorem missing_api_key_fails_only_on_miss_witness:
  "fst (getRedisValue ((ex_world 10)\<lparr>Environ := (\<lambda>name. [])\<rparr>) ex_db
         (Query_Get (ex_request ''203.0.113.7:5000'' ''ankara'') ''country'')) = Inl redis_Nil \<and>
   status (fst (redisMiddleware ex_libs ((ex_world 10)\<lparr>Environ := (\<lambda>name. [])\<rparr>) w0
         (ex_request ''203.0.113.7:5000'' ''ankara'') ex_db)) = Some 500 \<and>
   fst (getRedisValue ((ex_world 10)\<lparr>Environ := (\<lambda>name. [])\<rparr>) ex_db
         (Query_Get (ex_request ''203.0.113.7:5000'' ''maltepe'') ''country'')) = Inr ex_data \<and>
   fst (redisMiddleware ex_libs ((ex_world 10)\<lparr>Environ := (\<lambda>name. [])\<rparr>) w0
         (ex_request ''203.0.113.7:5000'' ''maltepe'') ex_db) =
     \<lparr>Header = [], status = Some StatusOK, body = ex_data\<rparr>"
proof -
  let ?wd = "(ex_world 10)\<lparr>Environ := (\<lambda>name. [])\<rparr>"
  have miss: "fst (getRedisValue ?wd ex_db
      (Query_Get (ex_request ''203.0.113.7:5000'' ''ankara'') ''country'')) = Inl redis_Nil"
    by (simp add: getRedisValue_def ex_world_def ex_db_def Query_Get_def ex_request_def)
  have no_key: "Environ ?wd ''API_KEY'' = []"
    by simp
  have hit: "fst (getRedisValue ?wd ex_db
      (Query_Get (ex_request ''203.0.113.7:5000'' ''maltepe'') ''country'')) = Inr ex_data"
    by (simp add: getRedisValue_def ex_world_def ex_db_def Query_Get_def ex_request_def)
  from missing_api_key_fails_only_on_miss [of ?wd ex_db
      "ex_request ''203.0.113.7:5000'' ''ankara''" redis_Nil ex_libs ex_data "\<lambda>name. []"]
    missing_api_key_fails_only_on_miss [of ?wd ex_db
      "ex_request ''203.0.113.7:5000'' ''maltepe''" redis_Nil ex_libs ex_data "\<lambda>name. []"]
    miss no_key hit
  show ?thesis
    by (simp add: StatusInternalServerError_def)
qed

text \<open>
  C8. After a request that missed the cache and was answered with status 200 (an upstream
  fill), the cache holds for that key exactly the bytes of that response body, expiring
  five minutes later; a request for the same key before that time, whose cache \<open>Get\<close>
  does not fail in transport, is answered with status 200 and the same bytes.
\<close>
theorem cache_round_trip_exact:
  assumes "fst (getRedisValue wd1 db (Query_Get r1 ''country'')) = Inl e"
    and "status (fst (redisMiddleware L wd1 w0 r1 db)) = Some StatusOK"
    and "Query_Get r2 ''country'' = Query_Get r1 ''country''"
    and "GetFault wd2 = None"
    and "now wd2 < now wd1 + cache_ttl"
  shows "fst (snd (redisMiddleware L wd1 w0 r1 db)) (Query_Get r1 ''country'') =
           Some (body (fst (redisMiddleware L wd1 w0 r1 db)), now wd1 + cache_ttl) \<and>
         fst (redisMiddleware L' wd2 w0 r2 (fst (snd (redisMiddleware L wd1 w0 r1 db)))) =
           \<lparr>Header = [], status = Some StatusOK,
            body = body (fst (redisMiddleware L wd1 w0 r1 db))\<rparr>"
proof (cases rule: redisMiddleware_cases [where wd = wd1 and db = db and r = r1 and L = L])
  case (hit val)
  with assms(1) show ?thesis by simp
next
  case no_key
  with assms(2) show ?thesis
    by (simp add: redisMiddleware_no_key http_Error_w0 StatusOK_def StatusInternalServerError_def)
next
  case fetch_failed
  with assms(2) show ?thesis
    by (simp add: redisMiddleware_fetch_failed http_Error_w0 StatusOK_def StatusInternalServerError_def)
next
  case marshal_failed
  with assms(2) show ?thesis
    by (simp add: redisMiddleware_marshal_failed http_Error_w0 StatusOK_def StatusInternalServerError_def)
next
  case set_failed
  with assms(2) show ?thesis
    by (simp add: redisMiddleware_set_failed http_Error_w0 StatusOK_def StatusInternalServerError_def)
next
  case (fill e' weather data)
  then have first: "redisMiddleware L wd1 w0 r1 db =
      (Write w0 data, db(Query_Get r1 ''country'' \<mapsto> (data, now wd1 + cache_ttl)),
       [RedisGet (Query_Get r1 ''country''), Getenv ''API_KEY''] @
       snd (getWeatherValue L wd1 (Query_Get r1 ''country'') (Environ wd1 ''API_KEY'')) @
       [RedisSet (Query_Get r1 ''country'') data cache_ttl, Println ''No redis''])"
    by (rule redisMiddleware_fill)
  have "fst (getRedisValue wd2 (db(Query_Get r1 ''country'' \<mapsto> (data, now wd1 + cache_ttl)))
      (Query_Get r2 ''country'')) = Inr data"
    using assms(3,4,5) by (simp add: getRedisValue_def)
  then have "redisMiddleware L' wd2 w0 r2 (db(Query_Get r1 ''country'' \<mapsto> (data, now wd1 + cache_ttl))) =
      (Write w0 data, db(Query_Get r1 ''country'' \<mapsto> (data, now wd1 + cache_ttl)),
       [RedisGet (Query_Get r2 ''country''), Println ''Yes redis''])"
    by (rule redisMiddleware_hit)
  with first show ?thesis
    by (simp add: Write_w0)
qed

text \<open>C8 at a fill at time 0 and a second request from another address at time 299.\<close>

theorem cache_round_trip_exact_witness:
  "fst (snd (redisMiddleware ex_libs (ex_world 0) w0 (ex_request ''203.0.113.7:5000'' ''maltepe'')
       Map.empty)) ''maltepe'' = Some (ex_data, 300) \<and>
   fst (redisMiddleware ex_libs (ex_world 299) w0 (ex_request ''198.51.100.2:41000'' ''maltepe'')
       (fst (snd (redisMiddleware ex_libs (ex_world 0) w0
          (ex_request ''203.0.113.7:5000'' ''maltepe'') Map.empty)))) =
     \<lparr>Header = [], status = Some StatusOK, body = ex_data\<rparr>"
proof -
  let ?r1 = "ex_request ''203.0.113.7:5000'' ''maltepe''"
  let ?r2 = "ex_request ''198.51.100.2:41000'' ''maltepe''"
  have miss: "fst (getRedisValue (ex_world 0) Map.empty (Query_Get ?r1 ''country'')) = Inl redis_Nil"
    by (rule ex_miss_empty_cache)
  have ok: "status (fst (redisMiddleware ex_libs (ex_world 0) w0 ?r1 Map.empty)) = Some StatusOK"
    by (simp add: ex_fill_maltepe)
  have same: "Query_Get ?r2 ''country'' = Query_Get ?r1 ''country''"
    by simp
  have no_fault: "GetFault (ex_world 299) = None"
    by simp
  have fresh: "now (ex_world 299) < now (ex_world 0) + cache_ttl"
    by (simp add: cache_ttl_def)
  from cache_round_trip_exact [OF miss ok same no_fault fresh, of ex_libs]
  show ?thesis
    by (simp add: ex_fill_maltepe cache_ttl_def)
qed

text \<open>
  C5. The cache misses and the API key is set. When the upstream fetch fails, because the
  request cannot be created, the request cannot be made (a network error or the timeout),
  the body cannot be read, the status is not 200, or the body cannot be decoded, the
  response is status 500 with the body \<open>getWeatherValue Error : \<close> followed by the error
  of that kind of failure; the cache is left as it was and no cache \<open>Set\<close> is made. A
  later request for the same key that still misses the cache, when the upstream answers
  200 with a body that decodes and the cache \<open>Set\<close> succeeds, is answered with status 200
  and the payload, and the cache then holds the payload for that key.
\<close>

theorem upstream_failure_not_cached_retry_fills:
  assumes "fst (getRedisValue wd db (Query_Get r ''country'')) = Inl e'"
    and "Environ wd ''API_KEY'' \<noteq> []"
    and "NewRequest L (fetch_url (Query_Get r ''country'') (Environ wd ''API_KEY'')) = Some e \<and>
           err = ''failed to create HTTP request: '' @ e \<or>
         NewRequest L (fetch_url (Query_Get r ''country'') (Environ wd ''API_KEY'')) = None \<and>
           Do wd (fetch_url (Query_Get r ''country'') (Environ wd ''API_KEY'')) = DoFailed e \<and>
           err = ''failed to make HTTP request: '' @ e \<or>
         NewRequest L (fetch_url (Query_Get r ''country'') (Environ wd ''API_KEY'')) = None \<and>
           Do wd (fetch_url (Query_Get r ''country'') (Environ wd ''API_KEY'')) = ReadFailed e \<and>
           err = ''failed to read response body: '' @ e \<or>
         NewRequest L (fetch_url (Query_Get r ''country'') (Environ wd ''API_KEY'')) = None \<and>
           Do wd (fetch_url (Query_Get r ''country'') (Environ wd ''API_KEY'')) = Reply code bs \<and>
           code \<noteq> StatusOK \<and>
           err = ''status code : '' @ itoa code @ '' , message : '' @ bs \<or>
         NewRequest L (fetch_url (Query_Get r ''country'') (Environ wd ''API_KEY'')) = None \<and>
           Do wd (fetch_url (Query_Get r ''country'') (Environ wd ''API_KEY'')) = Reply StatusOK bs \<and>
           Unmarshal L bs = Inl err"
  shows "fst (redisMiddleware L wd w0 r db) =
           \<lparr>Header = [], status = Some StatusInternalServerError,
            body = ''getWeatherValue Error : '' @ err @ newline\<rparr> \<and>
         fst (snd (redisMiddleware L wd w0 r db)) = db \<and>
         filter is_RedisSet (snd (snd (redisMiddleware L wd w0 r db))) = [] \<and>
         (fst (getRedisValue wd' db (Query_Get r ''country'')) = Inl e'' \<and>
          Environ wd' ''API_KEY'' \<noteq> [] \<and>
          NewRequest L (fetch_url (Query_Get r ''country'') (Environ wd' ''API_KEY'')) = None \<and>
          Do wd' (fetch_url (Query_Get r ''country'') (Environ wd' ''API_KEY'')) = Reply StatusOK bs' \<and>
          Unmarshal L bs' = Inr weather \<and>
          Marshal L weather = Inr data \<and> SetFault wd' = None \<longrightarrow>
            fst (redisMiddleware L wd' w0 r (fst (snd (redisMiddleware L wd w0 r db)))) =
              \<lparr>Header = [], status = Some StatusOK, body = data\<rparr> \<and>
            fst (snd (redisMiddleware L wd' w0 r (fst (snd (redisMiddleware L wd w0 r db))))) =
              db(Query_Get r ''country'' \<mapsto> (data, now wd' + cache_ttl)))"
proof -
  have failed: "fst (getWeatherValue L wd (Query_Get r ''country'') (Environ wd ''API_KEY'')) = Inl err"
    using assms(2,3) by (rule getWeatherValue_fails)
  have first: "redisMiddleware L wd w0 r db =
      (http_Error w0 (''getWeatherValue Error : '' @ err) StatusInternalServerError, db,
       [RedisGet (Query_Get r ''country''), Getenv ''API_KEY''] @
       snd (getWeatherValue L wd (Query_Get r ''country'') (Environ wd ''API_KEY'')))"
    using assms(1,2) failed by (rule redisMiddleware_fetch_failed)
  have retry: "fst (redisMiddleware L wd' w0 r db) =
        \<lparr>Header = [], status = Some StatusOK, body = data\<rparr> \<and>
      fst (snd (redisMiddleware L wd' w0 r db)) =
        db(Query_Get r ''country'' \<mapsto> (data, now wd' + cache_ttl))"
    if miss: "fst (getRedisValue wd' db (Query_Get r ''country'')) = Inl e''"
      and key: "Environ wd' ''API_KEY'' \<noteq> []"
      and "NewRequest L (fetch_url (Query_Get r ''country'') (Environ wd' ''API_KEY'')) = None"
      and "Do wd' (fetch_url (Query_Get r ''country'') (Environ wd' ''API_KEY'')) = Reply StatusOK bs'"
      and "Unmarshal L bs' = Inr weather"
      and enc: "Marshal L weather = Inr data" and set: "SetFault wd' = None"
  proof -
    have "fst (getWeatherValue L wd' (Query_Get r ''country'') (Environ wd' ''API_KEY'')) = Inr weather"
      using that(2-5) by (rule getWeatherValue_succeeds)
    with miss key show ?thesis
      using redisMiddleware_fill [of wd' db r e'' L weather data w0] enc set
      by (simp add: Write_w0)
  qed
  show ?thesis
    using retry
    by (simp add: first http_Error_w0 getWeatherValue_no_cache_events)
qed

text \<open>
  C5 at an upstream that answers 500 at time 0 and 200 at time 5, and at an upstream that
  cannot be reached.
\<close>

theorem upstream_failure_not_cached_retry_fills_witness:
  "fst (redisMiddleware ex_libs (ex_world 0) w0 (ex_request ''203.0.113.7:5000'' ''ankara'') Map.empty) =
     \<lparr>Header = [], status = Some StatusInternalServerError,
      body = ''getWeatherValue Error : status code : 500 , message : down'' @ newline\<rparr> \<and>
   fst (snd (redisMiddleware ex_libs (ex_world 0) w0 (ex_request ''203.0.113.7:5000'' ''ankara'')
     Map.empty)) = Map.empty \<and>
   fst (redisMiddleware ex_libs ((ex_world 5)\<lparr>Do := (\<lambda>url. Reply 200 ex_body)\<rparr>) w0
     (ex_request ''203.0.113.7:5000'' ''ankara'')
     (fst (snd (redisMiddleware ex_libs (ex_world 0) w0 (ex_request ''203.0.113.7:5000'' ''ankara'')
        Map.empty)))) =
     \<lparr>Header = [], status = Some StatusOK, body = ex_data\<rparr> \<and>
   fst (snd (redisMiddleware ex_libs ((ex_world 5)\<lparr>Do := (\<lambda>url. Reply 200 ex_body)\<rparr>) w0
     (ex_request ''203.0.113.7:5000'' ''ankara'')
     (fst (snd (redisMiddleware ex_libs (ex_world 0) w0 (ex_request ''203.0.113.7:5000'' ''ankara'')
        Map.empty))))) = [''ankara'' \<mapsto> (ex_data, 305)] \<and>
   fst (redisMiddleware ex_libs ((ex_world 0)\<lparr>Do := (\<lambda>url. DoFailed ''context deadline exceeded'')\<rparr>)
     w0 (ex_request ''203.0.113.7:5000'' ''maltepe'') Map.empty) =
     \<lparr>Header = [], status = Some StatusInternalServerError,
      body = ''getWeatherValue Error : failed to make HTTP request: context deadline exceeded''
        @ newline\<rparr>"
proof -
  let ?r = "ex_request ''203.0.113.7:5000'' ''ankara''"
  let ?wd2 = "(ex_world 5)\<lparr>Do := (\<lambda>url. Reply 200 ex_body)\<rparr>"
  let ?err = "''status code : '' @ itoa 500 @ '' , message : down''"
  have miss1: "fst (getRedisValue (ex_world 0) Map.empty (Query_Get ?r ''country'')) = Inl redis_Nil"
    by (rule ex_miss_empty_cache)
  have key1: "Environ (ex_world 0) ''API_KEY'' \<noteq> []"
    by simp
  have fail: "NewRequest ex_libs (fetch_url (Query_Get ?r ''country'') (Environ (ex_world 0) ''API_KEY''))
        = Some [] \<and> ?err = ''failed to create HTTP request: '' @ [] \<or>
      NewRequest ex_libs (fetch_url (Query_Get ?r ''country'') (Environ (ex_world 0) ''API_KEY''))
        = None \<and>
        Do (ex_world 0) (fetch_url (Query_Get ?r ''country'') (Environ (ex_world 0) ''API_KEY''))
          = DoFailed [] \<and> ?err = ''failed to make HTTP request: '' @ [] \<or>
      NewRequest ex_libs (fetch_url (Query_Get ?r ''country'') (Environ (ex_world 0) ''API_KEY''))
        = None \<and>
        Do (ex_world 0) (fetch_url (Query_Get ?r ''country'') (Environ (ex_world 0) ''API_KEY''))
          = ReadFailed [] \<and> ?err = ''failed to read response body: '' @ [] \<or>
      NewRequest ex_libs (fetch_url (Query_Get ?r ''country'') (Environ (ex_world 0) ''API_KEY''))
        = None \<and>
        Do (ex_world 0) (fetch_url (Query_Get ?r ''country'') (Environ (ex_world 0) ''API_KEY''))
          = Reply 500 ''down'' \<and> 500 \<noteq> StatusOK \<and>
        ?err = ''status code : '' @ itoa 500 @ '' , message : '' @ ''down'' \<or>
      NewRequest ex_libs (fetch_url (Query_Get ?r ''country'') (Environ (ex_world 0) ''API_KEY''))
        = None \<and>
        Do (ex_world 0) (fetch_url (Query_Get ?r ''country'') (Environ (ex_world 0) ''API_KEY''))
          = Reply StatusOK ''down'' \<and> Unmarshal ex_libs ''down'' = Inl ?err"
    by (simp add: fetch_url_def ex_Do_ankara StatusOK_def)
  have miss2: "fst (getRedisValue ?wd2 Map.empty (Query_Get ?r ''country'')) = Inl redis_Nil"
    by (simp add: getRedisValue_def)
  have key2: "Environ ?wd2 ''API_KEY'' \<noteq> []"
    by simp
  have request2: "NewRequest ex_libs (fetch_url (Query_Get ?r ''country'') (Environ ?wd2 ''API_KEY''))
      = None"
    by simp
  have reply2: "Do ?wd2 (fetch_url (Query_Get ?r ''country'') (Environ ?wd2 ''API_KEY''))
      = Reply StatusOK ex_body"
    by (simp add: StatusOK_def)
  have decoded: "Unmarshal ex_libs ex_body = Inr ex_weather"
    by (simp add: ex_Unmarshal_def)
  have marshalled: "Marshal ex_libs ex_weather = Inr ex_data"
    by (simp add: ex_Marshal_weather)
  have set_ok: "SetFault ?wd2 = None"
    by simp
  have digits: "itoa 500 = ''500''"
    by code_simp
  note claim = upstream_failure_not_cached_retry_fills [OF miss1 key1 fail,
      where wd' = ?wd2 and e'' = redis_Nil and bs' = ex_body and weather = ex_weather
        and data = ex_data]
  from claim have failed: "fst (redisMiddleware ex_libs (ex_world 0) w0 ?r Map.empty) =
      \<lparr>Header = [], status = Some StatusInternalServerError,
       body = ''getWeatherValue Error : '' @ ?err @ newline\<rparr>"
    by (rule conjunct1)
  from claim have kept: "fst (snd (redisMiddleware ex_libs (ex_world 0) w0 ?r Map.empty)) = Map.empty"
    by blast
  from claim miss2 key2 request2 reply2 decoded marshalled set_ok
  have retry: "fst (redisMiddleware ex_libs ?wd2 w0 ?r
        (fst (snd (redisMiddleware ex_libs (ex_world 0) w0 ?r Map.empty)))) =
      \<lparr>Header = [], status = Some StatusOK, body = ex_data\<rparr> \<and>
    fst (snd (redisMiddleware ex_libs ?wd2 w0 ?r
        (fst (snd (redisMiddleware ex_libs (ex_world 0) w0 ?r Map.empty))))) =
      Map.empty(Query_Get ?r ''country'' \<mapsto> (ex_data, now ?wd2 + cache_ttl))"
    by blast
  let ?rm = "ex_request ''203.0.113.7:5000'' ''maltepe''"
  let ?down = "(ex_world 0)\<lparr>Do := (\<lambda>url. DoFailed ''context deadline exceeded'')\<rparr>"
  let ?timeout = "''failed to make HTTP request: '' @ ''context deadline exceeded''"
  have miss3: "fst (getRedisValue ?down Map.empty (Query_Get ?rm ''country'')) = Inl redis_Nil"
    by (simp add: getRedisValue_def)
  have key3: "Environ ?down ''API_KEY'' \<noteq> []"
    by simp
  have unreachable:
    "NewRequest ex_libs (fetch_url (Query_Get ?rm ''country'') (Environ ?down ''API_KEY''))
        = Some ''context deadline exceeded'' \<and>
        ?timeout = ''failed to create HTTP request: '' @ ''context deadline exceeded'' \<or>
      NewRequest ex_libs (fetch_url (Query_Get ?rm ''country'') (Environ ?down ''API_KEY''))
        = None \<and>
        Do ?down (fetch_url (Query_Get ?rm ''country'') (Environ ?down ''API_KEY''))
          = DoFailed ''context deadline exceeded'' \<and>
        ?timeout = ''failed to make HTTP request: '' @ ''context deadline exceeded'' \<or>
      NewRequest ex_libs (fetch_url (Query_Get ?rm ''country'') (Environ ?down ''API_KEY''))
        = None \<and>
        Do ?down (fetch_url (Query_Get ?rm ''country'') (Environ ?down ''API_KEY''))
          = ReadFailed ''context deadline exceeded'' \<and>
        ?timeout = ''failed to read response body: '' @ ''context deadline exceeded'' \<or>
      NewRequest ex_libs (fetch_url (Query_Get ?rm ''country'') (Environ ?down ''API_KEY''))
        = None \<and>
        Do ?down (fetch_url (Query_Get ?rm ''country'') (Environ ?down ''API_KEY''))
          = Reply 0 [] \<and> 0 \<noteq> StatusOK \<and>
        ?timeout = ''status code : '' @ itoa 0 @ '' , message : '' @ [] \<or>
      NewRequest ex_libs (fetch_url (Query_Get ?rm ''country'') (Environ ?down ''API_KEY''))
        = None \<and>
        Do ?down (fetch_url (Query_Get ?rm ''country'') (Environ ?down ''API_KEY''))
          = Reply StatusOK [] \<and> Unmarshal ex_libs [] = Inl ?timeout"
    by simp
  from upstream_failure_not_cached_retry_fills [OF miss3 key3 unreachable]
  have down: "fst (redisMiddleware ex_libs ?down w0 ?rm Map.empty) =
      \<lparr>Header = [], status = Some StatusInternalServerError,
       body = ''getWeatherValue Error : '' @ ?timeout @ newline\<rparr>"
    by (rule conjunct1)
  from failed kept retry down show ?thesis
    by (simp add: digits cache_ttl_def)
qed

text \<open>
  C1 as stated fails: with a cache miss, a successful fetch and a failing cache \<open>Set\<close>,
  the response is status 500 with an error message as body, not the payload with a
  non-error status.
\<close>
theorem set_failure_fails_request_counterexample:
  "fst (getRedisValue (ex_world_set_down 0) Map.empty ''maltepe'') = Inl redis_Nil \<and>
   fst (getWeatherValue ex_libs (ex_world_set_down 0) ''maltepe'' ''k'') = Inr ex_weather \<and>
   Marshal ex_libs ex_weather = Inr ex_data \<and>
   fst (setRedisValue (ex_world_set_down 0) Map.empty ''maltepe'' ex_data cache_ttl) = Some ''i/o timeout'' \<and>
   fst (redisMiddleware ex_libs (ex_world_set_down 0) w0
          (ex_request ''203.0.113.7:5000'' ''maltepe'') Map.empty) =
     \<lparr>Header = [], status = Some StatusInternalServerError,
      body = ''Error setting value in Redis'' @ newline\<rparr> \<and>
   \<not> (body (fst (redisMiddleware ex_libs (ex_world_set_down 0) w0
            (ex_request ''203.0.113.7:5000'' ''maltepe'') Map.empty)) = ex_data \<and>
      status (fst (redisMiddleware ex_libs (ex_world_set_down 0) w0
            (ex_request ''203.0.113.7:5000'' ''maltepe'') Map.empty)) \<noteq> Some StatusInternalServerError)"
proof -
  have "fst (getRedisValue (ex_world_set_down 0) Map.empty
      (Query_Get (ex_request ''203.0.113.7:5000'' ''maltepe'') ''country'')) = Inl redis_Nil"
    by (simp add: getRedisValue_def)
  then have "redisMiddleware ex_libs (ex_world_set_down 0) w0
      (ex_request ''203.0.113.7:5000'' ''maltepe'') Map.empty =
    (http_Error w0 ''Error setting value in Redis'' StatusInternalServerError, Map.empty,
     [RedisGet ''maltepe'', Getenv ''API_KEY'', HttpDo (weather_url ''maltepe'' ''k''),
      RedisSet ''maltepe'' ex_data cache_ttl])"
    using redisMiddleware_set_failed [of "ex_world_set_down 0" Map.empty
        "ex_request ''203.0.113.7:5000'' ''maltepe''" redis_Nil ex_libs ex_weather ex_data
        "''i/o timeout''" w0]
    by (simp add: ex_fetch_maltepe ex_Marshal_weather)
  then show ?thesis
    by (simp add: http_Error_w0 getRedisValue_def setRedisValue_def ex_fetch_maltepe
        ex_Marshal_weather)
qed

text \<open>
  C1, amended. When the cache misses, the upstream fetch and the encoding succeed and the
  cache \<open>Set\<close> fails, the request fails: the response is status 500 with the body
  \<open>Error setting value in Redis\<close>, the payload is not written, and the only effects are
  the cache \<open>Get\<close>, the read of \<open>API_KEY\<close>, the upstream call and the failed \<open>Set\<close>;
  nothing is printed.
\<close>
theorem set_failure_fails_request:
  assumes "fst (getRedisValue wd db (Query_Get r ''country'')) = Inl e"
    and "Environ wd ''API_KEY'' \<noteq> []"
    and "fst (getWeatherValue L wd (Query_Get r ''country'') (Environ wd ''API_KEY'')) = Inr weather"
    and "Marshal L weather = Inr data"
    and "fst (setRedisValue wd db (Query_Get r ''country'') data cache_ttl) = Some err"
  shows "redisMiddleware L wd w0 r db =
           (\<lparr>Header = [], status = Some StatusInternalServerError,
             body = ''Error setting value in Redis'' @ newline\<rparr>,
            db,
            [RedisGet (Query_Get r ''country''), Getenv ''API_KEY'',
             HttpDo (weather_url (if Query_Get r ''country'' = [] then default_country
                                  else Query_Get r ''country'') (Environ wd ''API_KEY'')),
             RedisSet (Query_Get r ''country'') data cache_ttl])"
proof -
  from assms(5) obtain err' where "SetFault wd = Some err'"
    by (cases "SetFault wd") (simp_all add: setRedisValue_def)
  with assms(1-4) show ?thesis
    by (simp add: redisMiddleware_set_failed http_Error_w0 getWeatherValue_ok_events)
qed

text \<open>C1, amended, at a world whose Redis \<open>SET\<close> times out.\<close>

theorem set_failure_fails_request_witness:
  "redisMiddleware ex_libs (ex_world_set_down 0) w0 (ex_request ''203.0.113.7:5000'' ''maltepe'')
     Map.empty =
     (\<lparr>Header = [], status = Some StatusInternalServerError,
       body = ''Error setting value in Redis'' @ newline\<rparr>,
      Map.empty,
      [RedisGet ''maltepe'', Getenv ''API_KEY'', HttpDo (weather_url ''maltepe'' ''k''),
       RedisSet ''maltepe'' ex_data cache_ttl])"
proof -
  let ?r = "ex_request ''203.0.113.7:5000'' ''maltepe''"
  let ?wd = "ex_world_set_down 0"
  have miss: "fst (getRedisValue ?wd Map.empty (Query_Get ?r ''country'')) = Inl redis_Nil"
    by (simp add: getRedisValue_def)
  have key: "Environ ?wd ''API_KEY'' \<noteq> []"
    by simp
  have fetched: "fst (getWeatherValue ex_libs ?wd (Query_Get ?r ''country'') (Environ ?wd ''API_KEY''))
      = Inr ex_weather"
    by (simp add: ex_fetch_maltepe)
  have marshalled: "Marshal ex_libs ex_weather = Inr ex_data"
    by (simp add: ex_Marshal_weather)
  have set_failed: "fst (setRedisValue ?wd Map.empty (Query_Get ?r ''country'') ex_data cache_ttl)
      = Some ''i/o timeout''"
    by (simp add: setRedisValue_def)
  from set_failure_fails_request [OF miss key fetched marshalled set_failed]
  show ?thesis
    by simp
qed

text \<open>
  C2 as stated fails: a request with the empty key on an empty cache reads and writes the
  cache under the empty key, leaves the entry of the default key \<open>maltepe\<close> absent, and
  a later request for \<open>maltepe\<close> misses the cache.
\<close>
theorem empty_key_not_normalized_for_cache_counterexample:
  "snd (snd (redisMiddleware ex_libs (ex_world 0) w0 (ex_request ''203.0.113.7:5000'' []) Map.empty)) =
     [RedisGet [], Getenv ''API_KEY'', HttpDo (weather_url ''maltepe'' ''k''),
      RedisSet [] ex_data cache_ttl, Println ''No redis''] \<and>
   fst (snd (redisMiddleware ex_libs (ex_world 0) w0 (ex_request ''203.0.113.7:5000'' []) Map.empty))
     default_country = None \<and>
   fst (snd (redisMiddleware ex_libs (ex_world 0) w0 (ex_request ''203.0.113.7:5000'' []) Map.empty))
     [] = Some (ex_data, 300) \<and>
   fst (getRedisValue (ex_world 1)
      (fst (snd (redisMiddleware ex_libs (ex_world 0) w0 (ex_request ''203.0.113.7:5000'' [])
         Map.empty))) default_country) = Inl redis_Nil"
proof -
  have "redisMiddleware ex_libs (ex_world 0) w0 (ex_request ''203.0.113.7:5000'' []) Map.empty =
     (Write w0 ex_data, [[] \<mapsto> (ex_data, 0 + cache_ttl)],
      [RedisGet [], Getenv ''API_KEY'', HttpDo (weather_url ''maltepe'' ''k''),
       RedisSet [] ex_data cache_ttl, Println ''No redis''])"
    using redisMiddleware_fill [of "ex_world 0" Map.empty "ex_request ''203.0.113.7:5000'' []"
        redis_Nil ex_libs ex_weather ex_data w0]
    by (simp add: ex_miss_empty_cache ex_fetch_empty ex_Marshal_weather)
  then show ?thesis
    by (simp add: default_country_def cache_ttl_def getRedisValue_def)
qed

text \<open>
  C2, amended. For a request whose lookup key is empty, only the upstream fetch replaces
  the key by the default \<open>maltepe\<close>: every upstream call of the request is for the URL of
  \<open>maltepe\<close>, and fetching the empty key is fetching \<open>maltepe\<close>. The cache \<open>Get\<close> and
  the cache \<open>Set\<close> use the empty key itself, and the cache entry of \<open>maltepe\<close> is left
  as it was.
\<close>
theorem empty_key_normalized_for_upstream_only:
  assumes "Query_Get r ''country'' = []"
  shows "(\<forall>ev \<in> set (snd (snd (redisMiddleware L wd w0 r db))).
            (is_RedisGet ev \<longrightarrow> ev = RedisGet []) \<and>
            (is_RedisSet ev \<longrightarrow> (\<exists>data. ev = RedisSet [] data cache_ttl)) \<and>
            (is_HttpDo ev \<longrightarrow> ev = HttpDo (weather_url default_country (Environ wd ''API_KEY'')))) \<and>
         fst (snd (redisMiddleware L wd w0 r db)) default_country = db default_country \<and>
         getWeatherValue L wd [] (Environ wd ''API_KEY'') =
           getWeatherValue L wd default_country (Environ wd ''API_KEY'')"
proof -
  have fetch_events: "ev = HttpDo (weather_url default_country (Environ wd ''API_KEY''))"
    if "ev \<in> set (snd (getWeatherValue L wd [] (Environ wd ''API_KEY'')))" for ev
    using that getWeatherValue_events [of L wd "[]" "Environ wd ''API_KEY''"] by auto
  have differ: "default_country \<noteq> []"
    by (simp add: default_country_def)
  have "(\<forall>ev \<in> set (snd (snd (redisMiddleware L wd w0 r db))).
            (is_RedisGet ev \<longrightarrow> ev = RedisGet []) \<and>
            (is_RedisSet ev \<longrightarrow> (\<exists>data. ev = RedisSet [] data cache_ttl)) \<and>
            (is_HttpDo ev \<longrightarrow> ev = HttpDo (weather_url default_country (Environ wd ''API_KEY'')))) \<and>
         fst (snd (redisMiddleware L wd w0 r db)) default_country = db default_country"
  proof (cases rule: redisMiddleware_cases [where wd = wd and db = db and r = r and L = L])
    case hit
    then show ?thesis by (simp add: redisMiddleware_hit assms)
  next
    case no_key
    then show ?thesis by (simp add: redisMiddleware_no_key assms)
  next
    case fetch_failed
    then show ?thesis
      by (auto simp: redisMiddleware_fetch_failed assms dest: fetch_events)
  next
    case marshal_failed
    then show ?thesis
      by (auto simp: redisMiddleware_marshal_failed assms dest: fetch_events)
  next
    case set_failed
    then show ?thesis
      by (auto simp: redisMiddleware_set_failed assms dest: fetch_events)
  next
    case fill
    then show ?thesis
      using differ by (auto simp: redisMiddleware_fill assms dest: fetch_events)
  qed
  then show ?thesis
    by (simp add: getWeatherValue_default)
qed

text \<open>C2, amended, at a request with the empty key on a cache that holds \<open>maltepe\<close>.\<close>

theorem empty_key_normalized_for_upstream_only_witness:
  "Query_Get (ex_request ''203.0.113.7:5000'' []) ''country'' = [] \<and>
   fst (snd (redisMiddleware ex_libs (ex_world 0) w0 (ex_request ''203.0.113.7:5000'' []) ex_db))
     default_country = ex_db default_country \<and>
   getWeatherValue ex_libs (ex_world 0) [] ''k'' = getWeatherValue ex_libs (ex_world 0) default_country ''k''"
proof -
  have empty: "Query_Get (ex_request ''203.0.113.7:5000'' []) ''country'' = []"
    by simp
  from empty_key_normalized_for_upstream_only [OF empty, of ex_libs "ex_world 0" ex_db] empty
  show ?thesis
    by simp
qed



text \<open>
  C7. On the first request of a client identifier the handler allocates a new limiter with
  the rate and burst it was configured with, stores its pointer under the identifier and
  uses it for this request; on a later request it uses the limiter stored under the
  identifier and writes its new state back in place. No two identifiers ever hold the
  same pointer, and a request leaves the limiter of every other identifier as it was.
  Hence in any run the requests of a client are admitted or rejected exactly as its own
  limiter decides at the times of its own requests, whatever other clients send.
\<close>

theorem one_limiter_per_client:
  assumes "registry_ok reg"
  shows "(ipLimiterMap reg (fst (getIP L r)) = None \<longrightarrow>
            fst (fst (snd (rateLimiterMiddleware L next limit b wd w r (reg, db)))) =
              \<lparr>ipLimiterMap = (ipLimiterMap reg)(fst (getIP L r) \<mapsto> length (heap reg)),
               heap = heap reg @ [snd (Allow (NewLimiter limit b) (now wd))]\<rparr>) \<and>
         (ipLimiterMap reg (fst (getIP L r)) = Some a \<longrightarrow>
            fst (fst (snd (rateLimiterMiddleware L next limit b wd w r (reg, db)))) =
              reg\<lparr>heap := (heap reg)[a := snd (Allow (heap reg ! a) (now wd))]\<rparr>) \<and>
         registry_ok (fst (fst (snd (rateLimiterMiddleware L next limit b wd w r (reg, db))))) \<and>
         (d \<noteq> fst (getIP L r) \<longrightarrow>
            limiter_of (fst (fst (snd (rateLimiterMiddleware L next limit b wd w r (reg, db))))) d =
              limiter_of reg d) \<and>
         map rejected (responses_to L c tr
           (fst (serve (rateLimiterMiddleware L (redisMiddleware L) limit b) (reg, db') tr))) =
           map Not (fst (allow_all (start_limiter reg c limit b)
             (map (\<lambda>x. now (fst x)) (filter (from_client L c) tr))))"
proof -
  let ?reg' = "fst (fst (snd (rateLimiterMiddleware L next limit b wd w r (reg, db))))"
  have step: "?reg' = snd (check_limiter L limit b wd r reg)"
    by (rule limited_registry)
  have first: "?reg' =
      \<lparr>ipLimiterMap = (ipLimiterMap reg)(fst (getIP L r) \<mapsto> length (heap reg)),
       heap = heap reg @ [snd (Allow (NewLimiter limit b) (now wd))]\<rparr>"
    if "ipLimiterMap reg (fst (getIP L r)) = None"
    using that by (simp add: step check_limiter_first)
  have later: "?reg' = reg\<lparr>heap := (heap reg)[a := snd (Allow (heap reg ! a) (now wd))]\<rparr>"
    if "ipLimiterMap reg (fst (getIP L r)) = Some a"
    using that by (simp add: step check_limiter_seen)
  have ok: "registry_ok ?reg'"
    using assms by (simp add: step check_limiter_ok)
  have other: "limiter_of ?reg' d = limiter_of reg d" if "d \<noteq> fst (getIP L r)"
    using check_limiter_other [OF assms, of L r d limit b wd] that by (simp add: step)
  have run: "map rejected (responses_to L c tr
           (fst (serve (rateLimiterMiddleware L (redisMiddleware L) limit b) (reg, db') tr))) =
           map Not (fst (allow_all (start_limiter reg c limit b)
             (map (\<lambda>x. now (fst x)) (filter (from_client L c) tr))))"
    using serve_limited [OF assms, of L limit b db' tr c] by blast
  from first later ok other run show ?thesis
    by blast
qed

text \<open>
  C7 at the first request of a client, and at a second client whose request is admitted
  right after the first client has used up its burst.
\<close>

theorem one_limiter_per_client_witness:
  "fst (fst (snd (weatherHandler ex_libs (ex_world 0) w0 (ex_request ''203.0.113.7:5000'' ''maltepe'')
     (registry_empty, Map.empty)))) =
     \<lparr>ipLimiterMap = [''203.0.113.7'' \<mapsto> 0],
      heap = [\<lparr>rate = 2, burst = 10, tokens = 9, lastRefill = 0\<rparr>]\<rparr> \<and>
   map rejected (responses_to ex_libs ''198.51.100.2'' (ex_burst @ [ex_other])
     (fst (serve (weatherHandler ex_libs) (registry_empty, Map.empty) (ex_burst @ [ex_other])))) =
     [False]"
proof -
  let ?r = "ex_request ''203.0.113.7:5000'' ''maltepe''"
  let ?tr = "ex_burst @ [ex_other]"
  note claim = one_limiter_per_client [OF registry_ok_empty,
      where L = ex_libs and r = ?r and limit = 2
        and b = 10 and wd = "ex_world 0" and w = w0 and db = Map.empty and db' = Map.empty
        and ?next = "redisMiddleware ex_libs" and c = "''198.51.100.2''"
        and tr = ?tr and a = 0 and d = "''198.51.100.2''"]
  have fresh: "ipLimiterMap registry_empty (fst (getIP ex_libs ?r)) = None"
    by (simp add: registry_empty_def)
  have first: "snd (Allow (NewLimiter 2 10) 0) =
      \<lparr>rate = 2, burst = 10, tokens = 9, lastRefill = 0\<rparr>"
    by (simp add: Allow_def refill_def NewLimiter_def)
  have other: "from_client ex_libs ''198.51.100.2'' ex_other"
    by (simp add: from_client_def ex_other_def ex_getIP_B)
  have verdict: "fst (allow_all (start_limiter registry_empty ''198.51.100.2'' 2 10)
      (map (\<lambda>x. now (fst x)) (filter (from_client ex_libs ''198.51.100.2'') ?tr)))
      = [True]"
    using other
    by (simp add: ex_burst_not_other ex_other_def start_limiter_def limiter_of_def
        registry_empty_def Allow_def refill_def NewLimiter_def)
  from claim fresh
  have created: "fst (fst (snd (rateLimiterMiddleware ex_libs (redisMiddleware ex_libs) 2 10
        (ex_world 0) w0 ?r (registry_empty, Map.empty)))) =
      \<lparr>ipLimiterMap = (ipLimiterMap registry_empty)(fst (getIP ex_libs ?r) \<mapsto>
         length (heap registry_empty)),
       heap = heap registry_empty @ [snd (Allow (NewLimiter 2 10) (now (ex_world 0)))]\<rparr>"
    by blast
  from claim
  have "map rejected (responses_to ex_libs ''198.51.100.2'' ?tr
      (fst (serve (rateLimiterMiddleware ex_libs (redisMiddleware ex_libs) 2 10)
         (registry_empty, Map.empty) ?tr))) =
    map Not (fst (allow_all (start_limiter registry_empty ''198.51.100.2'' 2 10)
      (map (\<lambda>x. now (fst x)) (filter (from_client ex_libs ''198.51.100.2'') ?tr))))"
    by blast
  then have admitted: "map rejected (responses_to ex_libs ''198.51.100.2'' ?tr
      (fst (serve (rateLimiterMiddleware ex_libs (redisMiddleware ex_libs) 2 10)
         (registry_empty, Map.empty) ?tr))) = [False]"
    by (simp only: verdict) simp
  from created admitted show ?thesis
    by (simp add: weatherHandler_def first registry_empty_def ex_getIP_A)
qed

text \<open>
  C9. When the remote address of a request cannot be split into host and port, its client
  identifier is the empty string. The limiter that a second such request meets is the one
  the first such request left, whatever the two addresses are; and of \<open>b + 1\<close> such
  requests within less than \<open>1 / limit\<close> seconds, the first to use the empty identifier,
  the last one is rejected although the addresses may all differ.
\<close>

theorem unsplittable_addresses_share_one_bucket:
  assumes "SplitHostPort L (RemoteAddr ra) = Inl ea"
    and "SplitHostPort L (RemoteAddr rb) = Inl eb"
    and "registry_ok reg"
  shows "fst (getIP L ra) = [] \<and>
         start_limiter (fst (fst (snd (rateLimiterMiddleware L next limit b wd w ra (reg, db)))))
             (fst (getIP L rb)) limit b =
           snd (Allow (start_limiter reg [] limit b) (now wd)) \<and>
         (0 < limit \<and> ipLimiterMap reg [] = None \<and>
          (\<forall>x \<in> set tr. \<exists>e. SplitHostPort L (RemoteAddr (snd x)) = Inl e) \<and>
          sorted (map (\<lambda>x. now (fst x)) tr) \<and> length tr = b + 1 \<and>
          limit * (now (fst (last tr)) - now (fst (hd tr))) < 1 \<longrightarrow>
            map rejected (fst (serve (rateLimiterMiddleware L (redisMiddleware L) limit b) (reg, db') tr)) =
              replicate b False @ [True])"
proof -
  have ip1: "fst (getIP L ra) = []"
    using assms(1) by (simp add: getIP_unsplit)
  have ip2: "fst (getIP L rb) = []"
    using assms(2) by (simp add: getIP_unsplit)
  have shared: "start_limiter (fst (fst (snd (rateLimiterMiddleware L next limit b wd w ra (reg, db)))))
             (fst (getIP L rb)) limit b =
           snd (Allow (start_limiter reg [] limit b) (now wd))"
    using start_limiter_own [OF assms(3) ip1, of limit b wd]
    by (simp add: limited_registry ip2)
  have run: "map rejected (fst (serve (rateLimiterMiddleware L (redisMiddleware L) limit b) (reg, db') tr)) =
              replicate b False @ [True]"
    if "0 < limit" and fresh: "ipLimiterMap reg [] = None"
      and bad: "\<forall>x \<in> set tr. \<exists>e. SplitHostPort L (RemoteAddr (snd x)) = Inl e"
      and "sorted (map (\<lambda>x. now (fst x)) tr)" and len: "length tr = b + 1"
      and "limit * (now (fst (last tr)) - now (fst (hd tr))) < 1"
  proof -
    let ?h = "rateLimiterMiddleware L (redisMiddleware L) limit b"
    have "\<forall>x \<in> set tr. from_client L [] x"
      using bad by (auto simp: from_client_def getIP_unsplit)
    then have all: "filter (from_client L []) tr = tr"
      by (intro filter_True) simp
    have "\<forall>p \<in> set (zip tr (fst (serve ?h (reg, db') tr))). from_client L [] (fst p)"
      using \<open>\<forall>x \<in> set tr. from_client L [] x\<close> by (auto dest: set_zip_leftD)
    then have "filter (\<lambda>p. from_client L [] (fst p)) (zip tr (fst (serve ?h (reg, db') tr))) =
        zip tr (fst (serve ?h (reg, db') tr))"
      by (intro filter_True) simp
    then have resp: "responses_to L [] tr (fst (serve ?h (reg, db') tr)) = fst (serve ?h (reg, db') tr)"
      by (simp add: responses_to_def)
    have nonempty: "tr \<noteq> []"
      using len by auto
    have "fst (allow_all (NewLimiter limit b) (map (\<lambda>x. now (fst x)) tr)) = replicate b True @ [False]"
      using allow_all_full_bucket [of "NewLimiter limit b" "map (\<lambda>x. now (fst x)) tr"] that nonempty
      by (simp add: last_map hd_map)
    with serve_limited [OF assms(3), of L limit b db' tr "[]"] show ?thesis
      by (simp add: all resp start_limiter_fresh [OF fresh])
  qed
  from ip1 shared run show ?thesis
    by blast
qed

text \<open>C9 at ten requests from the address \<open>@\<close> followed by one from \<open>pipe\<close>.\<close>

theorem unsplittable_addresses_share_one_bucket_witness:
  "fst (getIP ex_libs (ex_request ''@'' ''maltepe'')) = [] \<and>
   map rejected (fst (serve (weatherHandler ex_libs) (registry_empty, Map.empty) ex_unsplit)) =
     replicate 10 False @ [True]"
proof -
  have bad1: "SplitHostPort ex_libs (RemoteAddr (ex_request ''@'' ''maltepe'')) =
      Inl ''address @: missing port in address''"
    by (simp add: ex_request_def ex_split_at)
  have bad2: "SplitHostPort ex_libs (RemoteAddr (ex_request ''pipe'' ''maltepe'')) =
      Inl ''address pipe: missing port in address''"
    by (simp add: ex_request_def ex_split_pipe)
  note claim = unsplittable_addresses_share_one_bucket [OF bad1 bad2 registry_ok_empty,
      where limit = 2 and tr = ex_unsplit and b = 10 and db' = Map.empty
        and db = Map.empty and w = w0 and ?next = "redisMiddleware ex_libs" and wd = "ex_world 0"]
  have fresh: "ipLimiterMap registry_empty [] = None"
    by (simp add: registry_empty_def)
  have times: "sorted (map (\<lambda>x. now (fst x)) ex_unsplit)"
    by (simp add: ex_unsplit_def sorted_append)
  have len: "length ex_unsplit = 10 + 1"
    by (simp add: ex_unsplit_def)
  have window: "2 * (now (fst (last ex_unsplit)) - now (fst (hd ex_unsplit))) < 1"
    by (simp add: ex_unsplit_def)
  from claim fresh ex_unsplit_bad times len window show ?thesis
    by (simp add: weatherHandler_def)
qed

end
